theory Spec2Isabelle
  imports Main
begin

section \<open>Values exchanged with the outside world\<close>

text \<open>
  The script \<^verbatim>\<open>generate_preview_script.js\<close> is an orchestration of three collaborators:
  the listing endpoint reached through \<^verbatim>\<open>fetch\<close>, the filesystem (\<^verbatim>\<open>fs.rm\<close>,
  \<^verbatim>\<open>fs.mkdir\<close>) and a headless browser. Their answers are inputs of the model (a
  \<open>world\<close>); every call the script makes is appended to a trace of effects, every
  \<^verbatim>\<open>console\<close> call to a list of messages, and every exception is a value.
\<close>

datatype js_error = JsError (code: "string option") (message: string)

text \<open>One record of the listing response: the two fields the script reads,
  \<^verbatim>\<open>repo.owner.login\<close> and \<^verbatim>\<open>repo.name\<close>.\<close>

record repo =
  owner_login :: string
  name :: string

text \<open>The \<^verbatim>\<open>Response\<close> of \<^verbatim>\<open>fetch\<close>: \<^verbatim>\<open>ok\<close>, \<^verbatim>\<open>status\<close>, \<^verbatim>\<open>statusText\<close>,
  \<^verbatim>\<open>headers.get('link')\<close> (\<open>None\<close> is \<^verbatim>\<open>null\<close>) and the outcome of \<^verbatim>\<open>json()\<close>.\<close>

record api_response =
  ok :: bool
  status :: nat
  statusText :: string
  link :: "string option"
  json :: "js_error + repo list"

datatype fetch_result = FetchRejects js_error | FetchResolves api_response

text \<open>The \<^verbatim>\<open>HTTPResponse\<close> of \<^verbatim>\<open>page.goto\<close>: \<^verbatim>\<open>ok()\<close> and \<^verbatim>\<open>status()\<close>.\<close>

record http_response =
  http_ok :: bool
  http_status :: nat

text \<open>What the browser answers during one call of \<^verbatim>\<open>processRepository\<close>: for each
  awaited operation either an exception (\<open>Some e\<close>, \<open>Inl e\<close>) or its normal result.
  \<^verbatim>\<open>page.goto\<close> may resolve to \<^verbatim>\<open>null\<close> (\<open>Inr None\<close>).\<close>

record page_env =
  newPage_r :: "js_error option"
  setViewport_r :: "js_error option"
  goto_r :: "js_error + http_response option"
  screenshot_r :: "js_error option"
  close_r :: "js_error option"

record world =
  env_token :: "string option"
  output_dir :: string
  api :: "nat \<Rightarrow> fetch_result"
  rm_r :: "js_error option"
  mkdir_r :: "js_error option"
  launch_r :: "js_error option"
  pages :: "nat \<Rightarrow> page_env"
  browser_close_r :: "js_error option"
  prior_files :: "string set option"

text \<open>
  \<^item> \<open>env_token\<close> is \<^verbatim>\<open>process.env.ORG_PAT_TOKEN\<close> (\<open>None\<close> when unset);
  \<^item> \<open>output_dir\<close> is the value of \<^verbatim>\<open>path.join(__dirname, 'previews')\<close>;
  \<^item> \<open>api p\<close> is the answer to the request for page \<open>p\<close> of the listing;
  \<^item> \<open>pages i\<close> is the browser's behaviour during the \<open>i\<close>-th call of
    \<^verbatim>\<open>processRepository\<close> (counted from 0);
  \<^item> \<open>prior_files\<close> is the output directory as the previous run left it: \<open>None\<close> when
    it does not exist, otherwise the names of its entries.
\<close>

section \<open>Console messages and effects\<close>

text \<open>One constructor per \<^verbatim>\<open>console\<close> call of the script, carrying the interpolated values.\<close>

datatype console_msg =
    LogRemoved string
  | ErrRemoving string string
  | LogFetching
  | ErrNoToken
  | ErrFetching string
  | LogFound nat string
  | LogProcessing string
  | LogNavigating string
  | WarnFailedLoad string "nat option"
  | LogWaiting nat
  | LogTaking string
  | LogSuccess string
  | ErrProcessing string string
  | LogNoRepos
  | LogCleaning
  | LogLaunching
  | ErrCritical string
  | LogBrowserClosed
  | LogFinished

text \<open>One constructor per call that leaves the process. \<open>Fetch url auth\<close> carries the
  \<^verbatim>\<open>Authorization\<close> header; \<open>Goto page url waitUntil timeout\<close>;
  \<open>Screenshot page path fullPage (x, y, width, height)\<close>; \<open>Sleep ms\<close> is the
  \<^verbatim>\<open>setTimeout\<close> delay.\<close>

datatype effect =
    Fetch string string
  | FsRm string
  | FsMkdir string
  | Launch "string list"
  | NewPage
  | SetViewport nat nat nat
  | Goto nat string string nat
  | Sleep nat
  | Screenshot nat string bool "nat \<times> nat \<times> nat \<times> nat"
  | PageClose nat
  | BrowserClose

record run_state =
  console :: "console_msg list"
  effects :: "effect list"
  files :: "string set option"
  open_pages :: "nat list"
  pages_created :: nat

definition log :: "console_msg \<Rightarrow> run_state \<Rightarrow> run_state" where
  "log m st = st\<lparr>console := console st @ [m]\<rparr>"

definition emit :: "effect \<Rightarrow> run_state \<Rightarrow> run_state" where
  "emit e st = st\<lparr>effects := effects st @ [e]\<rparr>"

definition initial_state :: "world \<Rightarrow> run_state" where
  "initial_state w =
     \<lparr>console = [], effects = [], files = prior_files w, open_pages = [], pages_created = 0\<rparr>"

section \<open>Configuration\<close>

definition TARGET_ORG :: string where
  "TARGET_ORG = ''DapaLMS1''"

text \<open>\<^verbatim>\<open>String.prototype.toLowerCase\<close> on the ASCII letters, the only ones in \<open>TARGET_ORG\<close>.\<close>

definition lower_char :: "char \<Rightarrow> char" where
  "lower_char c =
     (let n = (of_char c :: nat) in if 65 \<le> n \<and> n \<le> 90 then char_of (n + 32) else c)"

definition toLowerCase :: "string \<Rightarrow> string" where
  "toLowerCase s = map lower_char s"

definition GITHUB_PAGES_BASE_URL :: string where
  "GITHUB_PAGES_BASE_URL = ''https://'' @ toLowerCase TARGET_ORG @ ''.github.io/''"

definition THUMBNAIL_WIDTH :: nat where
  "THUMBNAIL_WIDTH = 1200"

definition THUMBNAIL_HEIGHT :: nat where
  "THUMBNAIL_HEIGHT = 800"

definition SCREENSHOT_DELAY_MS :: nat where
  "SCREENSHOT_DELAY_MS = 3000"

text \<open>\<^verbatim>\<open>path.join(dir, seg)\<close> for a normalised directory and a single segment, the only
  way the script uses it: the segment is \<^verbatim>\<open>`${repoName}.png`\<close>.\<close>

definition path_join :: "string \<Rightarrow> string \<Rightarrow> string" where
  "path_join dir seg = dir @ ''/'' @ seg"

text \<open>Decimal rendering of a number inside a template literal.\<close>

definition digit :: "nat \<Rightarrow> char" where
  "digit d = char_of (48 + d)"

function show_nat :: "nat \<Rightarrow> string" where
  "show_nat n = (if n < 10 then [digit n] else show_nat (n div 10) @ [digit (n mod 10)])"
  by pat_completeness auto
termination
  by (relation "measure id") auto

text \<open>\<^verbatim>\<open>String.prototype.includes\<close>.\<close>

fun js_includes :: "string \<Rightarrow> string \<Rightarrow> bool" where
  "js_includes [] needle = (needle = [])"
| "js_includes (c # s) needle = (take (length needle) (c # s) = needle \<or> js_includes s needle)"

definition next_marker :: string where
  \<open>next_marker = ''rel="next"''\<close>

section \<open>removeDirectory\<close>

text \<open>
  \<^verbatim>\<open>fs.rm(dirPath, {recursive: true, force: true})\<close> inside \<^verbatim>\<open>try\<close>; the \<^verbatim>\<open>catch\<close>
  logs unless the code is \<^verbatim>\<open>ENOENT\<close> and never rethrows. A successful removal leaves no
  directory; a failed one is modelled as leaving the tree as it was. The result is
  \<open>Inr ()\<close> when the promise resolves and \<open>Inl e\<close> when it rejects.
\<close>

definition removeDirectory :: "world \<Rightarrow> string \<Rightarrow> run_state \<Rightarrow> (js_error + unit) \<times> run_state" where
  "removeDirectory w dirPath st =
     (let st1 = emit (FsRm dirPath) st in
      case rm_r w of
        None \<Rightarrow> (Inr (), log (LogRemoved dirPath) (st1\<lparr>files := None\<rparr>))
      | Some e \<Rightarrow>
          (if code e \<noteq> Some ''ENOENT''
           then (Inr (), log (ErrRemoving dirPath (message e)) st1)
           else (Inr (), st1)))"

section \<open>fetchRepositoryNames\<close>

text \<open>The loop variables \<^verbatim>\<open>allRepoNames\<close>, \<^verbatim>\<open>page\<close> and \<^verbatim>\<open>hasNextPage\<close>.\<close>

record lister_vars =
  allRepoNames :: "string list"
  page :: nat
  hasNextPage :: bool

definition list_url :: "nat \<Rightarrow> string" where
  "list_url p = ''https://api.github.com/user/repos?per_page=100&page='' @ show_nat p"

text \<open>The two \<^verbatim>\<open>filter\<close> calls and the \<^verbatim>\<open>map\<close> applied to the parsed body.\<close>

definition select_names :: "repo list \<Rightarrow> string list" where
  "select_names data =
     map name (filter (\<lambda>repo. name repo \<noteq> ''Catalog_of_Repos'')
       (filter (\<lambda>repo. owner_login repo = TARGET_ORG) data))"

text \<open>\<^verbatim>\<open>linkHeader && linkHeader.includes('rel="next"')\<close>, read as a condition: \<^verbatim>\<open>null\<close>
  and the empty string are falsy.\<close>

definition has_next :: "string option \<Rightarrow> bool" where
  "has_next linkHeader =
     (case linkHeader of None \<Rightarrow> False | Some l \<Rightarrow> l \<noteq> [] \<and> js_includes l next_marker)"

text \<open>The \<^verbatim>\<open>catch\<close> of the loop body: log the message and clear \<^verbatim>\<open>hasNextPage\<close>.\<close>

definition fetch_catch :: "js_error \<Rightarrow> lister_vars \<Rightarrow> run_state \<Rightarrow> lister_vars \<times> run_state" where
  "fetch_catch e v st = (v\<lparr>hasNextPage := False\<rparr>, log (ErrFetching (message e)) st)"

text \<open>One pass through the body of the \<^verbatim>\<open>while\<close> loop.\<close>

definition fetch_iteration ::
  "world \<Rightarrow> string \<Rightarrow> lister_vars \<Rightarrow> run_state \<Rightarrow> lister_vars \<times> run_state" where
  "fetch_iteration w token v st =
     (let st1 = emit (Fetch (list_url (page v)) (''token '' @ token)) st in
      case api w (page v) of
        FetchRejects e \<Rightarrow> fetch_catch e v st1
      | FetchResolves response \<Rightarrow>
          (if \<not> ok response
           then fetch_catch
                  (JsError None (''GitHub API HTTP error! Status: '' @ show_nat (status response)
                     @ '' - '' @ statusText response)) v st1
           else case json response of
                  Inl e \<Rightarrow> fetch_catch e v st1
                | Inr data \<Rightarrow>
                    (v\<lparr>hasNextPage := has_next (link response),
                       allRepoNames := allRepoNames v @ select_names data,
                       page := page v + 1\<rparr>, st1)))"

text \<open>The \<^verbatim>\<open>while (hasNextPage)\<close> loop. It need not end (a listing whose every page
  announces a next one), so it is a partial function: \<open>None\<close> is a loop that never
  returns.\<close>

partial_function (option) fetch_loop ::
  "world \<Rightarrow> string \<Rightarrow> lister_vars \<Rightarrow> run_state \<Rightarrow> (lister_vars \<times> run_state) option" where
  "fetch_loop w token v st =
     (if hasNextPage v
      then (case fetch_iteration w token v st of (v', st') \<Rightarrow> fetch_loop w token v' st')
      else Some (v, st))"

declare fetch_loop.simps [code]

text \<open>\<^verbatim>\<open>!token\<close> holds for an unset variable and for the empty string.\<close>

definition fetchRepositoryNames :: "world \<Rightarrow> run_state \<Rightarrow> (string list \<times> run_state) option" where
  "fetchRepositoryNames w st =
     (let st1 = log LogFetching st in
      case env_token w of
        None \<Rightarrow> Some ([], log ErrNoToken st1)
      | Some token \<Rightarrow>
          (if token = [] then Some ([], log ErrNoToken st1)
           else case fetch_loop w token
                       \<lparr>allRepoNames = [], page = 1, hasNextPage = True\<rparr> st1 of
                  None \<Rightarrow> None
                | Some (v, st2) \<Rightarrow>
                    Some (allRepoNames v,
                          log (LogFound (length (allRepoNames v)) TARGET_ORG) st2)))"

section \<open>processRepository\<close>

text \<open>
  The body of the \<^verbatim>\<open>try\<close> block. \<open>Inl e\<close> is an exception thrown inside it, \<open>Inr ()\<close>
  is reaching the end of the block or its \<^verbatim>\<open>return\<close>. A page context is open from
  the moment \<^verbatim>\<open>browser.newPage()\<close> resolves until \<^verbatim>\<open>page.close()\<close> is called on it.
  \<^verbatim>\<open>page.screenshot\<close> writes the file when it resolves; it cannot resolve when the
  directory is missing.
\<close>

definition close_page :: "page_env \<Rightarrow> nat \<Rightarrow> run_state \<Rightarrow> (js_error + unit) \<times> run_state" where
  "close_page pe pg st =
     (let st1 = (emit (PageClose pg) st)\<lparr>open_pages := removeAll pg (open_pages st)\<rparr> in
      case close_r pe of Some e \<Rightarrow> (Inl e, st1) | None \<Rightarrow> (Inr (), st1))"

definition processRepository_try ::
  "world \<Rightarrow> page_env \<Rightarrow> string \<Rightarrow> run_state \<Rightarrow> (js_error + unit) \<times> run_state" where
  "processRepository_try w pe repoName st =
     (let st1 = emit NewPage st in
      case newPage_r pe of
        Some e \<Rightarrow> (Inl e, st1)
      | None \<Rightarrow>
     (let pg = pages_created st1;
          st2 = st1\<lparr>pages_created := Suc pg, open_pages := pg # open_pages st1\<rparr>;
          st3 = emit (SetViewport pg THUMBNAIL_WIDTH THUMBNAIL_HEIGHT) st2 in
      case setViewport_r pe of
        Some e \<Rightarrow> (Inl e, st3)
      | None \<Rightarrow>
     (let liveUrl = GITHUB_PAGES_BASE_URL @ repoName @ ''/'';
          st4 = log (LogNavigating liveUrl) st3;
          st5 = emit (Goto pg liveUrl ''networkidle2'' 60000) st4 in
      case goto_r pe of
        Inl e \<Rightarrow> (Inl e, st5)
      | Inr response \<Rightarrow>
          (if (case response of None \<Rightarrow> True | Some r \<Rightarrow> \<not> http_ok r)
           then close_page pe pg
                  (log (WarnFailedLoad liveUrl (map_option http_status response)) st5)
           else
     (let st6 = emit (Sleep SCREENSHOT_DELAY_MS) (log (LogWaiting SCREENSHOT_DELAY_MS) st5);
          outputPath = path_join (output_dir w) (repoName @ ''.png'');
          st7 = emit (Screenshot pg outputPath False (0, 0, THUMBNAIL_WIDTH, THUMBNAIL_HEIGHT))
                  (log (LogTaking outputPath) st6) in
      case screenshot_r pe of
        Some e \<Rightarrow> (Inl e, st7)
      | None \<Rightarrow>
          (case files st7 of
             None \<Rightarrow> (Inl (JsError (Some ''ENOENT'') ''no such file or directory''), st7)
           | Some fs \<Rightarrow>
               (case close_page pe pg (st7\<lparr>files := Some (insert (repoName @ ''.png'') fs)\<rparr>) of
                  (Inl e, st8) \<Rightarrow> (Inl e, st8)
                | (Inr u, st8) \<Rightarrow> (Inr (), log (LogSuccess repoName) st8))))))))"

text \<open>The whole function: the first \<^verbatim>\<open>console.log\<close>, the \<^verbatim>\<open>try\<close> block and its
  \<^verbatim>\<open>catch\<close>, which logs and does nothing else.\<close>

definition processRepository ::
  "world \<Rightarrow> page_env \<Rightarrow> string \<Rightarrow> run_state \<Rightarrow> (js_error + unit) \<times> run_state" where
  "processRepository w pe repoName st =
     (case processRepository_try w pe repoName (log (LogProcessing repoName) st) of
        (Inl error, st') \<Rightarrow> (Inr (), log (ErrProcessing repoName (message error)) st')
      | (Inr u, st') \<Rightarrow> (Inr (), st'))"

section \<open>main\<close>

text \<open>The \<^verbatim>\<open>for ... of\<close> loop; \<open>i\<close> counts the calls of \<^verbatim>\<open>processRepository\<close>. An
  exception leaving \<^verbatim>\<open>processRepository\<close> would leave the loop.\<close>

fun process_all ::
  "world \<Rightarrow> nat \<Rightarrow> string list \<Rightarrow> run_state \<Rightarrow> (js_error + unit) \<times> run_state" where
  "process_all w i [] st = (Inr (), st)"
| "process_all w i (repoName # rest) st =
     (case processRepository w (pages w i) repoName st of
        (Inl e, st') \<Rightarrow> (Inl e, st')
      | (Inr u, st') \<Rightarrow> process_all w (Suc i) rest st')"

text \<open>How the process ends: \<open>Returned\<close> when the promise of \<^verbatim>\<open>main()\<close> resolves,
  \<open>Exited n\<close> on \<^verbatim>\<open>process.exit(n)\<close>, \<open>Rejected e\<close> when the promise rejects. Nothing
  handles a rejection of \<^verbatim>\<open>main()\<close>, and the Node.js versions the script requires
  (v18+) end the process with code 1 on an unhandled rejection.\<close>

datatype outcome = Returned | Exited nat | Rejected js_error

definition exit_code :: "outcome \<Rightarrow> nat" where
  "exit_code out = (case out of Returned \<Rightarrow> 0 | Exited n \<Rightarrow> n | Rejected e \<Rightarrow> 1)"

definition launch_args :: "string list" where
  "launch_args = [''--no-sandbox'', ''--disable-setuid-sandbox'', ''--disable-dev-shm-usage'',
     ''--disable-gpu'']"

text \<open>The \<^verbatim>\<open>catch\<close> of \<^verbatim>\<open>main\<close>: \<^verbatim>\<open>process.exit(1)\<close> ends the process at once, so the
  \<^verbatim>\<open>finally\<close> block does not run after it.\<close>

definition main_catch :: "js_error \<Rightarrow> run_state \<Rightarrow> outcome \<times> run_state" where
  "main_catch error st = (Exited 1, log (ErrCritical (message error)) st)"

text \<open>The \<^verbatim>\<open>finally\<close> block after a \<^verbatim>\<open>try\<close> that completed; \<open>browser\<close> tells whether
  the variable \<^verbatim>\<open>browser\<close> was assigned.\<close>

definition main_finally :: "world \<Rightarrow> bool \<Rightarrow> run_state \<Rightarrow> outcome \<times> run_state" where
  "main_finally w browser st =
     (if browser
      then (let st1 = emit BrowserClose st in
            case browser_close_r w of
              Some e \<Rightarrow> (Rejected e, st1)
            | None \<Rightarrow> (Returned, log LogFinished (log LogBrowserClosed st1)))
      else (Returned, log LogFinished st))"

text \<open>The \<^verbatim>\<open>try\<close> statement of \<^verbatim>\<open>main\<close>, entered with a non-empty \<^verbatim>\<open>REPO_NAMES\<close>.\<close>

definition main_try :: "world \<Rightarrow> string list \<Rightarrow> run_state \<Rightarrow> outcome \<times> run_state" where
  "main_try w REPO_NAMES st =
     (case removeDirectory w (output_dir w) (log LogCleaning st) of
        (Inl e, st1) \<Rightarrow> main_catch e st1
      | (Inr u, st1) \<Rightarrow>
     (let st2 = emit (FsMkdir (output_dir w)) st1 in
      case mkdir_r w of
        Some e \<Rightarrow> main_catch e st2
      | None \<Rightarrow>
     (let st3 = st2\<lparr>files := (case files st2 of None \<Rightarrow> Some {} | Some fs \<Rightarrow> Some fs)\<rparr>;
          st4 = emit (Launch launch_args) (log LogLaunching st3) in
      case launch_r w of
        Some e \<Rightarrow> main_catch e st4
      | None \<Rightarrow>
          (case process_all w 0 REPO_NAMES st4 of
             (Inl e, st5) \<Rightarrow> main_catch e st5
           | (Inr u, st5) \<Rightarrow> main_finally w True st5))))"

definition main_from :: "world \<Rightarrow> run_state \<Rightarrow> (outcome \<times> run_state) option" where
  "main_from w st =
     (case fetchRepositoryNames w st of
        None \<Rightarrow> None
      | Some (REPO_NAMES, st1) \<Rightarrow>
          (if length REPO_NAMES = 0 then Some (Returned, log LogNoRepos st1)
           else Some (main_try w REPO_NAMES st1)))"

definition main :: "world \<Rightarrow> (outcome \<times> run_state) option" where
  "main w = main_from w (initial_state w)"

section \<open>Observations on a run\<close>

text \<open>What the world offers on page \<open>p\<close> of the listing, read the way the loop body
  reads it: \<open>received\<close> is the parsed body and the pagination signal of a page that
  arrives (a resolved \<^verbatim>\<open>fetch\<close>, \<^verbatim>\<open>response.ok\<close>, a body that parses),
  \<open>page_error\<close> the message of the exception thrown otherwise, and \<open>continues\<close> tells
  whether the loop goes on after that page. \<open>fetch_effect\<close> is the request for a page;
  \<open>page_records\<close> and \<open>page_names\<close> are the records of a page and the names the loop
  keeps of them (none for a page that does not arrive); \<open>records_received w k\<close> and
  \<open>names_between\<close> collect them over a range of pages; \<open>stop_console\<close> is what the
  loop logs on the page where it stops.\<close>

definition fetch_effect :: "string \<Rightarrow> nat \<Rightarrow> effect" where
  "fetch_effect token p = Fetch (list_url p) (''token '' @ token)"

definition received :: "world \<Rightarrow> nat \<Rightarrow> (repo list \<times> bool) option" where
  "received w p =
     (case api w p of
        FetchRejects e \<Rightarrow> None
      | FetchResolves r \<Rightarrow>
          (if ok r then (case json r of Inl e \<Rightarrow> None | Inr data \<Rightarrow> Some (data, has_next (link r)))
           else None))"

definition page_error :: "world \<Rightarrow> nat \<Rightarrow> string option" where
  "page_error w p =
     (case api w p of
        FetchRejects e \<Rightarrow> Some (message e)
      | FetchResolves r \<Rightarrow>
          (if \<not> ok r
           then Some (''GitHub API HTTP error! Status: '' @ show_nat (status r) @ '' - '' @ statusText r)
           else (case json r of Inl e \<Rightarrow> Some (message e) | Inr data \<Rightarrow> None)))"

definition continues :: "world \<Rightarrow> nat \<Rightarrow> bool" where
  "continues w p = (case received w p of Some (data, nxt) \<Rightarrow> nxt | None \<Rightarrow> False)"

definition page_records :: "world \<Rightarrow> nat \<Rightarrow> repo list" where
  "page_records w p = (case received w p of Some (data, nxt) \<Rightarrow> data | None \<Rightarrow> [])"

definition page_names :: "world \<Rightarrow> nat \<Rightarrow> string list" where
  "page_names w p = (case received w p of Some (data, nxt) \<Rightarrow> select_names data | None \<Rightarrow> [])"

definition names_between :: "world \<Rightarrow> nat \<Rightarrow> nat \<Rightarrow> string list" where
  "names_between w p n = concat (map (page_names w) [p..<n])"

definition records_received :: "world \<Rightarrow> nat \<Rightarrow> repo list" where
  "records_received w k = concat (map (page_records w) [1..<Suc k])"

definition stop_console :: "world \<Rightarrow> nat \<Rightarrow> console_msg list" where
  "stop_console w n = (case page_error w n of Some msg \<Rightarrow> [ErrFetching msg] | None \<Rightarrow> [])"

text \<open>The URLs requested, in order, and the repository names whose processing began.\<close>

fun fetched_urls :: "effect list \<Rightarrow> string list" where
  "fetched_urls [] = []"
| "fetched_urls (Fetch url auth # es) = url # fetched_urls es"
| "fetched_urls (e # es) = fetched_urls es"

fun processing_started :: "console_msg list \<Rightarrow> string list" where
  "processing_started [] = []"
| "processing_started (LogProcessing n # ms) = n # processing_started ms"
| "processing_started (m # ms) = processing_started ms"

text \<open>The state in which the capture loop starts when \<^verbatim>\<open>fs.mkdir\<close> and
  \<^verbatim>\<open>puppeteer.launch\<close> succeed (the steps of \<open>main_try\<close> before the loop), and the way
  \<open>main_try\<close> ends as a function of the three calls of \<^verbatim>\<open>main\<close> that can throw.\<close>

definition setup_state :: "world \<Rightarrow> run_state \<Rightarrow> run_state" where
  "setup_state w st =
     (let st1 = snd (removeDirectory w (output_dir w) (log LogCleaning st));
          st2 = emit (FsMkdir (output_dir w)) st1;
          st3 = st2\<lparr>files := (case files st2 of None \<Rightarrow> Some {} | Some fs \<Rightarrow> Some fs)\<rparr>
      in emit (Launch launch_args) (log LogLaunching st3))"

definition main_outcome :: "world \<Rightarrow> outcome" where
  "main_outcome w =
     (case mkdir_r w of
        Some e \<Rightarrow> Exited 1
      | None \<Rightarrow>
          (case launch_r w of
             Some e \<Rightarrow> Exited 1
           | None \<Rightarrow> (case browser_close_r w of Some e \<Rightarrow> Rejected e | None \<Rightarrow> Returned)))"

section \<open>Example worlds\<close>

text \<open>A listing of two pages: the first announces a next page and holds a repository of
  the organisation, one of another owner and the catalog itself; the second is the last.
  Variants: a second page that answers 500, a listing of one page.\<close>

definition ex_link :: string where
  \<open>ex_link = ''<https://api.github.com/user/repos?per_page=100&page=2>; rel="next"''\<close>

definition ex_page1 :: api_response where
  "ex_page1 = \<lparr>ok = True, status = 200, statusText = ''OK'', link = Some ex_link,
     json = Inr [\<lparr>owner_login = ''DapaLMS1'', name = ''app''\<rparr>,
                 \<lparr>owner_login = ''other'', name = ''lib''\<rparr>,
                 \<lparr>owner_login = ''DapaLMS1'', name = ''Catalog_of_Repos''\<rparr>]\<rparr>"

definition ex_page2 :: api_response where
  "ex_page2 = \<lparr>ok = True, status = 200, statusText = ''OK'', link = None,
     json = Inr [\<lparr>owner_login = ''DapaLMS1'', name = ''site''\<rparr>]\<rparr>"


definition ex_page_ok :: page_env where
  "ex_page_ok = \<lparr>newPage_r = None, setViewport_r = None,
     goto_r = Inr (Some \<lparr>http_ok = True, http_status = 200\<rparr>),
     screenshot_r = None, close_r = None\<rparr>"

definition ex_page_404 :: page_env where
  "ex_page_404 = \<lparr>newPage_r = None, setViewport_r = None,
     goto_r = Inr (Some \<lparr>http_ok = False, http_status = 404\<rparr>),
     screenshot_r = None, close_r = None\<rparr>"

definition ex_page_timeout :: page_env where
  "ex_page_timeout = \<lparr>newPage_r = None, setViewport_r = None,
     goto_r = Inl (JsError None ''Navigation timeout of 60000 ms exceeded''),
     screenshot_r = None, close_r = None\<rparr>"

definition ex_world :: world where
  "ex_world = \<lparr>env_token = Some ''t'', output_dir = ''/repo/previews'',
     api = (\<lambda>p. if p = 1 then FetchResolves ex_page1
                else if p = 2 then FetchResolves ex_page2
                else FetchRejects (JsError None ''fetch failed'')),
     rm_r = None, mkdir_r = None, launch_r = None,
     pages = (\<lambda>i. ex_page_ok), browser_close_r = None,
     prior_files = Some {''old.png''}\<rparr>"


definition ex_world_single :: world where
  "ex_world_single = ex_world\<lparr>api := (\<lambda>p. FetchResolves ex_page2)\<rparr>"

definition ex_listed :: run_state where
  "ex_listed = \<lparr>console = [LogFetching, LogFound 2 ''DapaLMS1''],
     effects = [Fetch ''https://api.github.com/user/repos?per_page=100&page=1'' ''token t'',
                Fetch ''https://api.github.com/user/repos?per_page=100&page=2'' ''token t''],
     files = Some {''old.png''}, open_pages = [], pages_created = 0\<rparr>"

text \<open>Browsers: the first page answers 404; every navigation times out; the screenshot
  fails. Worlds with one page of listing where the removal of the directory, the closing
  of the browser or the creation of the directory fails.\<close>

definition ex_timeout :: js_error where
  "ex_timeout = JsError None ''Navigation timeout of 60000 ms exceeded''"

definition ex_shot_error :: js_error where
  "ex_shot_error = JsError (Some ''ENOSPC'') ''no space left on device''"

definition ex_page_shot_fails :: page_env where
  "ex_page_shot_fails = ex_page_ok\<lparr>screenshot_r := Some ex_shot_error\<rparr>"

definition ex_world_404 :: world where
  "ex_world_404 = ex_world\<lparr>pages := (\<lambda>i. if i = 0 then ex_page_404 else ex_page_ok)\<rparr>"

definition ex_world_timeouts :: world where
  "ex_world_timeouts = ex_world\<lparr>pages := (\<lambda>i. ex_page_timeout)\<rparr>"


definition ex_world_close_fails :: world where
  "ex_world_close_fails = ex_world_single\<lparr>browser_close_r := Some (JsError None ''Target closed'')\<rparr>"

definition ex_world_mkdir_fails :: world where
  "ex_world_mkdir_fails = ex_world_single\<lparr>mkdir_r := Some (JsError (Some ''EACCES'') ''permission denied'')\<rparr>"

section \<open>The listing loop\<close>

lemma iteration_received:
  "received w p = Some (data, nxt) \<Longrightarrow>
   fetch_iteration w t \<lparr>allRepoNames = a, page = p, hasNextPage = True\<rparr> st =
     (\<lparr>allRepoNames = a @ select_names data, page = Suc p, hasNextPage = nxt\<rparr>,
      emit (fetch_effect t p) st)"
  by (auto simp: received_def fetch_iteration_def fetch_effect_def
      split: fetch_result.splits if_splits sum.splits)

lemma iteration_failed:
  "page_error w p = Some msg \<Longrightarrow>
   fetch_iteration w t \<lparr>allRepoNames = a, page = p, hasNextPage = True\<rparr> st =
     (\<lparr>allRepoNames = a, page = p, hasNextPage = False\<rparr>,
      log (ErrFetching msg) (emit (fetch_effect t p) st))"
  by (auto simp: page_error_def fetch_iteration_def fetch_effect_def fetch_catch_def
      split: fetch_result.splits if_splits sum.splits)

lemma received_or_error:
  "(received w p = None) = (\<exists>msg. page_error w p = Some msg)"
  by (auto simp: received_def page_error_def split: fetch_result.splits sum.splits)

lemma names_between_Suc:
  "p \<le> n \<Longrightarrow> names_between w p (Suc n) = names_between w p n @ page_names w n"
  by (simp add: names_between_def)

lemma fetch_loop_advance:
  assumes "p \<le> n" and "\<forall>q. p \<le> q \<and> q < n \<longrightarrow> continues w q"
  shows "fetch_loop w t \<lparr>allRepoNames = a, page = p, hasNextPage = True\<rparr> st =
         fetch_loop w t \<lparr>allRepoNames = a @ names_between w p n, page = n, hasNextPage = True\<rparr>
           (st\<lparr>effects := effects st @ map (fetch_effect t) [p..<n]\<rparr>)"
  using assms
proof (induction n rule: dec_induct)
  case base
  show ?case by (simp add: names_between_def)
next
  case (step n)
  from step.prems step.hyps have c: "continues w n" by simp
  then obtain data where r: "received w n = Some (data, True)"
    by (auto simp: continues_def split: option.splits)
  have pn: "page_names w n = select_names data"
    using r by (simp add: page_names_def)
  have "fetch_loop w t \<lparr>allRepoNames = a, page = p, hasNextPage = True\<rparr> st =
        fetch_loop w t \<lparr>allRepoNames = a @ names_between w p n, page = n, hasNextPage = True\<rparr>
           (st\<lparr>effects := effects st @ map (fetch_effect t) [p..<n]\<rparr>)"
    using step by simp
  also have "\<dots> = fetch_loop w t
        \<lparr>allRepoNames = (a @ names_between w p n) @ select_names data, page = Suc n, hasNextPage = True\<rparr>
        (emit (fetch_effect t n) (st\<lparr>effects := effects st @ map (fetch_effect t) [p..<n]\<rparr>))"
    by (subst fetch_loop.simps) (simp add: iteration_received [OF r])
  also have "\<dots> = fetch_loop w t
        \<lparr>allRepoNames = a @ names_between w p (Suc n), page = Suc n, hasNextPage = True\<rparr>
        (st\<lparr>effects := effects st @ map (fetch_effect t) [p..<Suc n]\<rparr>)"
    using step.hyps(1) by (simp add: names_between_Suc pn emit_def)
  finally show ?case .
qed

lemma fetch_loop_done:
  "fetch_loop w t \<lparr>allRepoNames = a, page = p, hasNextPage = False\<rparr> st =
     Some (\<lparr>allRepoNames = a, page = p, hasNextPage = False\<rparr>, st)"
  by (subst fetch_loop.simps) simp

lemma fetch_loop_last_page:
  assumes "received w n = Some (data, False)"
  shows "fetch_loop w t \<lparr>allRepoNames = a, page = n, hasNextPage = True\<rparr> st =
     Some (\<lparr>allRepoNames = a @ select_names data, page = Suc n, hasNextPage = False\<rparr>,
           emit (fetch_effect t n) st)"
  by (subst fetch_loop.simps) (simp add: iteration_received [OF assms] fetch_loop_done)

lemma fetch_loop_failed_page:
  assumes "page_error w n = Some msg"
  shows "fetch_loop w t \<lparr>allRepoNames = a, page = n, hasNextPage = True\<rparr> st =
     Some (\<lparr>allRepoNames = a, page = n, hasNextPage = False\<rparr>,
           log (ErrFetching msg) (emit (fetch_effect t n) st))"
  by (subst fetch_loop.simps) (simp add: iteration_failed [OF assms] fetch_loop_done)

lemma fetch_loop_stops:
  assumes "p \<le> n" and "\<forall>q. p \<le> q \<and> q < n \<longrightarrow> continues w q" and "\<not> continues w n"
  shows "\<exists>v'. fetch_loop w t \<lparr>allRepoNames = a, page = p, hasNextPage = True\<rparr> st =
           Some (v', st\<lparr>effects := effects st @ map (fetch_effect t) [p..<Suc n],
                        console := console st @ stop_console w n\<rparr>)
         \<and> allRepoNames v' = a @ names_between w p (Suc n)"
proof (cases "received w n")
  case None
  then obtain msg where e: "page_error w n = Some msg"
    by (auto simp: received_or_error)
  have "page_names w n = []" using None by (simp add: page_names_def)
  then show ?thesis
    using assms(1)
    by (simp add: fetch_loop_advance [OF assms(1,2)] fetch_loop_failed_page [OF e]
        names_between_Suc stop_console_def e log_def emit_def)
next
  case (Some r)
  then obtain data where r: "received w n = Some (data, False)"
    using assms(3) by (cases r) (auto simp: continues_def)
  have "page_error w n = None"
    using r received_or_error [of w n] by (cases "page_error w n") auto
  moreover have "page_names w n = select_names data" using r by (simp add: page_names_def)
  ultimately show ?thesis
    using assms(1)
    by (simp add: fetch_loop_advance [OF assms(1,2)] fetch_loop_last_page [OF r]
        names_between_Suc stop_console_def emit_def)
qed

text \<open>A loop that returns has met a page after which it does not go on.\<close>

lemma fetch_loop_Some_stops:
  "fetch_loop w t v st = Some r \<Longrightarrow> hasNextPage v \<longrightarrow> (\<exists>n\<ge>page v. \<not> continues w n)"
proof (induction rule: fetch_loop.raw_induct [rotated 1, consumes 1])
  case (1 f w t v st r)
  show ?case
  proof (intro impI, cases "continues w (page v)")
    case False
    then show "\<exists>n\<ge>page v. \<not> continues w n" by blast
  next
    assume hn: "hasNextPage v"
    case True
    then obtain data where rc: "received w (page v) = Some (data, True)"
      by (auto simp: continues_def split: option.splits)
    obtain a where v: "v = \<lparr>allRepoNames = a, page = page v, hasNextPage = True\<rparr>"
      using hn by (cases v) simp
    have it: "fetch_iteration w t v st =
        (\<lparr>allRepoNames = a @ select_names data, page = Suc (page v), hasNextPage = True\<rparr>,
         emit (fetch_effect t (page v)) st)"
      using iteration_received [OF rc, of t a st] v by simp
    from "1"(2) hn it
    have "f w t \<lparr>allRepoNames = a @ select_names data, page = Suc (page v), hasNextPage = True\<rparr>
            (emit (fetch_effect t (page v)) st) = Some r"
      by simp
    from "1"(1) [OF this] obtain n where "Suc (page v) \<le> n" "\<not> continues w n"
      by auto
    then show "\<exists>n\<ge>page v. \<not> continues w n"
      by (metis Suc_leD)
  qed
qed

lemma first_stop:
  assumes "p \<le> m" "\<not> continues w m"
  shows "\<exists>n\<ge>p. \<not> continues w n \<and> (\<forall>q. p \<le> q \<and> q < n \<longrightarrow> continues w q)"
proof -
  define n where "n = (LEAST n. p \<le> n \<and> \<not> continues w n)"
  have ex: "p \<le> m \<and> \<not> continues w m" using assms by simp
  have "p \<le> n \<and> \<not> continues w n"
    unfolding n_def by (rule LeastI [of "\<lambda>n. p \<le> n \<and> \<not> continues w n", OF ex])
  moreover have "\<forall>q. p \<le> q \<and> q < n \<longrightarrow> continues w q"
    unfolding n_def using not_less_Least by blast
  ultimately show ?thesis by blast
qed

lemma fetched_urls_append: "fetched_urls (xs @ ys) = fetched_urls xs @ fetched_urls ys"
  by (induction xs rule: fetched_urls.induct) simp_all

lemma fetched_urls_fetches: "fetched_urls (map (fetch_effect t) ps) = map list_url ps"
  by (induction ps) (simp_all add: fetch_effect_def)

lemma select_names_append: "select_names (xs @ ys) = select_names xs @ select_names ys"
  by (simp add: select_names_def)

lemma select_names_concat: "select_names (concat xss) = concat (map select_names xss)"
  by (induction xss) (simp_all add: select_names_append, simp add: select_names_def)

lemma page_names_records: "page_names w p = select_names (page_records w p)"
  by (simp add: page_names_def page_records_def select_names_def split: option.splits)

lemma names_between_records: "names_between w 1 (Suc k) = select_names (records_received w k)"
proof -
  have "page_names w = (\<lambda>p. select_names (page_records w p))"
    by (rule ext) (rule page_names_records)
  then show ?thesis
    by (simp add: names_between_def records_received_def select_names_concat o_def del: upt_Suc)
qed

lemma select_names_filter:
  "select_names data =
     map name (filter (\<lambda>r. owner_login r = ''DapaLMS1'' \<and> name r \<noteq> ''Catalog_of_Repos'') data)"
  by (simp add: select_names_def TARGET_ORG_def conj_commute)

lemma js_includes_iff: "js_includes s needle \<longleftrightarrow> (\<exists>pre post. s = pre @ needle @ post)"
proof (induction s)
  case Nil
  show ?case by auto
next
  case (Cons c s)
  show ?case
  proof
    assume "js_includes (c # s) needle"
    then consider "take (length needle) (c # s) = needle" | "js_includes s needle" by auto
    then show "\<exists>pre post. c # s = pre @ needle @ post"
    proof cases
      case 1
      then have "c # s = [] @ needle @ drop (length needle) (c # s)"
        by (metis append_Nil append_take_drop_id)
      then show ?thesis by blast
    next
      case 2
      with Cons.IH obtain pre post where "s = pre @ needle @ post" by blast
      then have "c # s = (c # pre) @ needle @ post" by simp
      then show ?thesis by blast
    qed
  next
    assume "\<exists>pre post. c # s = pre @ needle @ post"
    then obtain pre post where e: "c # s = pre @ needle @ post" by blast
    show "js_includes (c # s) needle"
    proof (cases pre)
      case Nil
      with e have "take (length needle) (c # s) = needle" by simp
      then show ?thesis by simp
    next
      case (Cons d pre')
      with e have "s = pre' @ needle @ post" by simp
      with Cons.IH have "js_includes s needle" by blast
      then show ?thesis by simp
    qed
  qed
qed

lemma has_next_iff: "has_next h \<longleftrightarrow> (\<exists>pre post. h = Some (pre @ next_marker @ post))"
proof (cases h)
  case None
  then show ?thesis by (simp add: has_next_def)
next
  case (Some l)
  have "next_marker \<noteq> []" by (simp add: next_marker_def)
  then have "l \<noteq> [] \<and> js_includes l next_marker \<longleftrightarrow> js_includes l next_marker"
    by (auto simp: js_includes_iff)
  with Some show ?thesis by (simp add: has_next_def js_includes_iff)
qed

lemma has_next_None: "\<not> has_next None"
  by (simp add: has_next_def)

lemma continues_iff:
  "continues w p \<longleftrightarrow>
     (\<exists>r data. api w p = FetchResolves r \<and> ok r \<and> json r = Inr data \<and> has_next (link r))"
  by (auto simp: continues_def received_def split: fetch_result.splits sum.splits)

lemma show_nat_1: "show_nat (Suc 0) = ''1''"
  by code_simp

lemma show_nat_2: "show_nat 2 = ''2''"
  by code_simp

lemma upt_1_3: "[Suc 0..<3] = [Suc 0, 2]"
  by code_simp

lemma base_url: "GITHUB_PAGES_BASE_URL = ''https://dapalms1.github.io/''"
  by code_simp

text \<open>The result of \<^verbatim>\<open>fetchRepositoryNames\<close>: without a token, and with a token when
  page \<open>n\<close> is the first after which the loop does not go on.\<close>

lemma fetchRepositoryNames_no_token:
  assumes "env_token w = None \<or> env_token w = Some []"
  shows "fetchRepositoryNames w st = Some ([], st\<lparr>console := console st @ [LogFetching, ErrNoToken]\<rparr>)"
  using assms by (auto simp: fetchRepositoryNames_def log_def)

lemma fetchRepositoryNames_stops:
  assumes "env_token w = Some token" "token \<noteq> []"
    and "1 \<le> n" "\<forall>q. 1 \<le> q \<and> q < n \<longrightarrow> continues w q" "\<not> continues w n"
  shows "fetchRepositoryNames w st =
     Some (names_between w 1 (Suc n),
           st\<lparr>effects := effects st @ map (fetch_effect token) [1..<Suc n],
              console := console st @ [LogFetching] @ stop_console w n @
                [LogFound (length (names_between w 1 (Suc n))) TARGET_ORG]\<rparr>)"
proof -
  from fetch_loop_stops [OF assms(3,4,5), of token "[]" "log LogFetching st"]
  obtain v' where
    "fetch_loop w token \<lparr>allRepoNames = [], page = 1, hasNextPage = True\<rparr> (log LogFetching st) =
       Some (v', (log LogFetching st)\<lparr>effects := effects (log LogFetching st) @
               map (fetch_effect token) [1..<Suc n],
             console := console (log LogFetching st) @ stop_console w n\<rparr>)"
    and "allRepoNames v' = names_between w 1 (Suc n)"
    by auto
  then show ?thesis
    using assms(1,2) by (simp add: fetchRepositoryNames_def log_def)
qed

lemma fetchRepositoryNames_Some:
  assumes "env_token w = Some token" "token \<noteq> []"
    and "fetchRepositoryNames w st = Some (names, st')"
  shows "\<exists>n\<ge>1. \<not> continues w n \<and> (\<forall>q. 1 \<le> q \<and> q < n \<longrightarrow> continues w q)"
proof -
  from assms obtain r where
    "fetch_loop w token \<lparr>allRepoNames = [], page = 1, hasNextPage = True\<rparr> (log LogFetching st) = Some r"
    by (auto simp: fetchRepositoryNames_def split: option.splits)
  from fetch_loop_Some_stops [OF this] obtain m where "1 \<le> m" "\<not> continues w m"
    by auto
  then show ?thesis by (rule first_stop)
qed

text \<open>With a token, the call returns exactly when some page ends the loop.\<close>

lemma fetchRepositoryNames_returns_iff:
  assumes "env_token w = Some token" "token \<noteq> []"
  shows "(\<exists>r. fetchRepositoryNames w st = Some r) \<longleftrightarrow> (\<exists>n\<ge>1. \<not> continues w n)"
proof
  assume "\<exists>r. fetchRepositoryNames w st = Some r"
  then obtain names st' where "fetchRepositoryNames w st = Some (names, st')" by auto
  from fetchRepositoryNames_Some [OF assms this] show "\<exists>n\<ge>1. \<not> continues w n" by blast
next
  assume "\<exists>n\<ge>1. \<not> continues w n"
  then obtain m where "1 \<le> m" "\<not> continues w m" by blast
  from first_stop [OF this] obtain n where
    "1 \<le> n" "\<not> continues w n" "\<forall>q. 1 \<le> q \<and> q < n \<longrightarrow> continues w q"
    by blast
  from fetchRepositoryNames_stops [OF assms this(1) this(3) this(2), of st]
  show "\<exists>r. fetchRepositoryNames w st = Some r" by blast
qed

text \<open>The example listing.\<close>

lemma ex_has_next: "has_next (Some ex_link)"
  by (simp add: has_next_def ex_link_def next_marker_def)

lemma ex_token: "env_token ex_world = Some ''t''" "''t'' \<noteq> []"
  by (simp_all add: ex_world_def)

lemma ex_initial: "initial_state ex_world = \<lparr>console = [], effects = [], files = Some {''old.png''},
      open_pages = [], pages_created = 0\<rparr>"
  by (simp add: initial_state_def ex_world_def)

lemma ex_world_continues: "continues ex_world (Suc 0)" "\<not> continues ex_world 2"
  by (simp_all add: continues_def received_def ex_world_def ex_page1_def ex_page2_def
      ex_has_next has_next_None)

lemma ex_world_names: "names_between ex_world 1 (Suc 2) = [''app'', ''site'']"
  by (simp add: names_between_def upt_1_3 page_names_def received_def ex_world_def ex_page1_def
      ex_page2_def select_names_def TARGET_ORG_def del: upt_Suc)

lemma ex_world_listing:
  "fetchRepositoryNames ex_world (initial_state ex_world) = Some ([''app'', ''site''], ex_listed)"
proof -
  have t: "env_token ex_world = Some ''t''" "''t'' \<noteq> []"
    by (simp_all add: ex_world_def)
  have c: "\<forall>q. 1 \<le> q \<and> q < 2 \<longrightarrow> continues ex_world q"
  proof (intro allI impI)
    fix q :: nat assume "1 \<le> q \<and> q < 2"
    then have "q = Suc 0" by simp
    then show "continues ex_world q" by (simp add: ex_world_continues)
  qed
  have e: "stop_console ex_world 2 = []"
    by (simp add: stop_console_def page_error_def ex_world_def ex_page2_def)
  have f: "map (fetch_effect ''t'') [1..<Suc 2] =
     [Fetch ''https://api.github.com/user/repos?per_page=100&page=1'' ''token t'',
      Fetch ''https://api.github.com/user/repos?per_page=100&page=2'' ''token t'']"
    by (simp add: upt_1_3 fetch_effect_def list_url_def show_nat_1 show_nat_2
        del: upt_Suc show_nat.simps)
  have "fetchRepositoryNames ex_world (initial_state ex_world) =
     Some (names_between ex_world 1 (Suc 2),
           (initial_state ex_world)\<lparr>effects := effects (initial_state ex_world) @ map (fetch_effect ''t'') [1..<Suc 2],
              console := console (initial_state ex_world) @ [LogFetching] @ stop_console ex_world 2 @
                [LogFound (length (names_between ex_world 1 (Suc 2))) TARGET_ORG]\<rparr>)"
    by (rule fetchRepositoryNames_stops [OF t _ c ex_world_continues(2)]) simp
  then show ?thesis
    by (simp only: ex_world_names e f ex_initial) (simp add: ex_listed_def TARGET_ORG_def)
qed

section \<open>Claims on the lister\<close>

text \<open>
  C4. Whenever \<^verbatim>\<open>fetchRepositoryNames\<close> returns, the pages requested are 1 to \<open>k\<close> for
  some \<open>k\<close>, and the result is, in order, the names of exactly those records received on
  these pages whose owner is \<^verbatim>\<open>'DapaLMS1'\<close> (string equality, so case-sensitive) and
  whose name is not \<^verbatim>\<open>'Catalog_of_Repos'\<close>: a name occurs in the result if and only if a
  received record with that name passes both tests. In particular the exclusion name never
  occurs in the result.
\<close>

theorem C4_filtering_policy:
  assumes "fetchRepositoryNames w st = Some (names, st')"
  shows "\<exists>k. fetched_urls (effects st') = fetched_urls (effects st) @ map list_url [1..<Suc k]
     \<and> names = map name (filter (\<lambda>r. owner_login r = ''DapaLMS1'' \<and> name r \<noteq> ''Catalog_of_Repos'')
                   (records_received w k))
     \<and> (\<forall>x. x \<in> set names \<longleftrightarrow>
            (\<exists>r \<in> set (records_received w k).
               name r = x \<and> owner_login r = ''DapaLMS1'' \<and> name r \<noteq> ''Catalog_of_Repos''))
     \<and> ''Catalog_of_Repos'' \<notin> set names"
proof -
  have "\<exists>k. fetched_urls (effects st') = fetched_urls (effects st) @ map list_url [1..<Suc k]
     \<and> names = select_names (records_received w k)"
  proof (cases "env_token w = None \<or> env_token w = Some []")
    case True
    from fetchRepositoryNames_no_token [OF True, of st] assms
    have "names = []" "effects st' = effects st" by auto
    then have "fetched_urls (effects st') = fetched_urls (effects st) @ map list_url [1..<Suc 0]
       \<and> names = select_names (records_received w 0)"
      by (simp add: records_received_def select_names_def)
    then show ?thesis by blast
  next
    case False
    then obtain token where t: "env_token w = Some token" "token \<noteq> []"
      by (cases "env_token w") auto
    from fetchRepositoryNames_Some [OF t assms] obtain n where
      n: "1 \<le> n" "\<not> continues w n" "\<forall>q. 1 \<le> q \<and> q < n \<longrightarrow> continues w q"
      by blast
    from fetchRepositoryNames_stops [OF t n(1) n(3) n(2), of st] assms
    have "names = names_between w 1 (Suc n)"
      "effects st' = effects st @ map (fetch_effect token) [1..<Suc n]"
      by auto
    then have "fetched_urls (effects st') = fetched_urls (effects st) @ map list_url [1..<Suc n]
       \<and> names = select_names (records_received w n)"
      by (simp only: fetched_urls_append fetched_urls_fetches names_between_records)
    then show ?thesis by blast
  qed
  then obtain k where k: "fetched_urls (effects st') = fetched_urls (effects st) @ map list_url [1..<Suc k]"
    "names = select_names (records_received w k)"
    by blast
  have "names = map name (filter (\<lambda>r. owner_login r = ''DapaLMS1'' \<and> name r \<noteq> ''Catalog_of_Repos'')
                   (records_received w k))"
    using k(2) by (simp only: select_names_filter)
  moreover from this have "\<forall>x. x \<in> set names \<longleftrightarrow>
            (\<exists>r \<in> set (records_received w k).
               name r = x \<and> owner_login r = ''DapaLMS1'' \<and> name r \<noteq> ''Catalog_of_Repos'')"
    by auto
  moreover from this have "''Catalog_of_Repos'' \<notin> set names"
    by blast
  ultimately show ?thesis using k(1) by blast
qed

theorem C4_filtering_policy_witness:
  "fetchRepositoryNames ex_world (initial_state ex_world) = Some ([''app'', ''site''], ex_listed)
   \<and> (\<exists>k. fetched_urls (effects ex_listed) =
            fetched_urls (effects (initial_state ex_world)) @ map list_url [1..<Suc k]
      \<and> [''app'', ''site''] =
          map name (filter (\<lambda>r. owner_login r = ''DapaLMS1'' \<and> name r \<noteq> ''Catalog_of_Repos'')
            (records_received ex_world k))
      \<and> (\<forall>x. x \<in> set [''app'', ''site''] \<longleftrightarrow>
            (\<exists>r \<in> set (records_received ex_world k).
               name r = x \<and> owner_login r = ''DapaLMS1'' \<and> name r \<noteq> ''Catalog_of_Repos''))
      \<and> ''Catalog_of_Repos'' \<notin> set [''app'', ''site''])"
  by (rule conjI [OF ex_world_listing C4_filtering_policy [OF ex_world_listing]])

text \<open>
  C5. With the credential variable unset, \<^verbatim>\<open>fetchRepositoryNames\<close> returns the empty
  list after logging the fatal condition, and \<^verbatim>\<open>main\<close> returns after logging that no
  repository was found: the trace of effects is empty (no page request, no navigation, no
  call on the output directory), the directory is as the previous run left it, and the
  exit code is 0.
\<close>

theorem C5_missing_credential:
  assumes "env_token w = None"
  shows "fetchRepositoryNames w st = Some ([], st\<lparr>console := console st @ [LogFetching, ErrNoToken]\<rparr>)
     \<and> main w = Some (Returned,
          \<lparr>console = [LogFetching, ErrNoToken, LogNoRepos], effects = [],
           files = prior_files w, open_pages = [], pages_created = 0\<rparr>)
     \<and> exit_code Returned = 0"
  using assms
  by (simp add: fetchRepositoryNames_def main_def main_from_def initial_state_def log_def
      exit_code_def)

theorem C5_missing_credential_witness:
  "env_token (ex_world\<lparr>env_token := None\<rparr>) = None
   \<and> main (ex_world\<lparr>env_token := None\<rparr>) = Some (Returned,
          \<lparr>console = [LogFetching, ErrNoToken, LogNoRepos], effects = [],
           files = Some {''old.png''}, open_pages = [], pages_created = 0\<rparr>)"
proof -
  have h: "env_token (ex_world\<lparr>env_token := None\<rparr>) = None" by simp
  have p: "prior_files (ex_world\<lparr>env_token := None\<rparr>) = Some {''old.png''}"
    by (simp add: ex_world_def)
  from C5_missing_credential [OF h, of "initial_state ex_world"] h p show ?thesis
    by simp
qed

text \<open>
  C6. With a token, the requests of a call that returns are the pages 1 to \<open>k\<close> in order,
  each with \<^verbatim>\<open>per_page=100\<close>; after a page \<open>p\<close> of these the next one is requested exactly
  when the page arrived and its link header contains \<^verbatim>\<open>rel="next"\<close>; the result is the
  concatenation, in page order, of the filtered names of the pages. When the first listing
  response lacks the marker the call returns and has issued exactly one request.
\<close>

theorem C6_pagination:
  assumes "env_token w = Some token" and "token \<noteq> []"
  shows "(fetchRepositoryNames w st = Some (names, st') \<longrightarrow>
      (\<exists>k\<ge>1.
         effects st' = effects st @
           map (\<lambda>p. Fetch (''https://api.github.com/user/repos?per_page=100&page='' @ show_nat p)
                         (''token '' @ token)) [1..<Suc k]
       \<and> (\<forall>p. 1 \<le> p \<and> p \<le> k \<longrightarrow>
             (p < k \<longleftrightarrow>
                (\<exists>r data pre post. api w p = FetchResolves r \<and> ok r \<and> json r = Inr data
                   \<and> link r = Some (pre @ next_marker @ post))))
       \<and> names = concat (map (\<lambda>p. select_names (page_records w p)) [1..<Suc k])))
    \<and> ((\<forall>r. api w 1 = FetchResolves r \<longrightarrow> \<not> has_next (link r)) \<longrightarrow>
      (\<exists>names1 st1. fetchRepositoryNames w st = Some (names1, st1)
         \<and> effects st1 = effects st @
             [Fetch ''https://api.github.com/user/repos?per_page=100&page=1'' (''token '' @ token)]))"
proof (intro conjI impI)
  assume res: "fetchRepositoryNames w st = Some (names, st')"
  from fetchRepositoryNames_Some [OF assms res] obtain n where
    n: "1 \<le> n" "\<not> continues w n" "\<forall>q. 1 \<le> q \<and> q < n \<longrightarrow> continues w q"
    by blast
  from fetchRepositoryNames_stops [OF assms n(1) n(3) n(2), of st] res
  have names: "names = names_between w 1 (Suc n)"
    and eff: "effects st' = effects st @ map (fetch_effect token) [1..<Suc n]"
    by auto
  have fe: "fetch_effect token =
      (\<lambda>p. Fetch (''https://api.github.com/user/repos?per_page=100&page='' @ show_nat p)
                 (''token '' @ token))"
    by (rule ext) (simp add: fetch_effect_def list_url_def)
  have pn: "page_names w = (\<lambda>p. select_names (page_records w p))"
    by (rule ext) (rule page_names_records)
  have a: "effects st' = effects st @
           map (\<lambda>p. Fetch (''https://api.github.com/user/repos?per_page=100&page='' @ show_nat p)
                         (''token '' @ token)) [1..<Suc n]"
    using eff by (simp only: fe)
  have b: "\<forall>p. 1 \<le> p \<and> p \<le> n \<longrightarrow>
             (p < n \<longleftrightarrow>
                (\<exists>r data pre post. api w p = FetchResolves r \<and> ok r \<and> json r = Inr data
                   \<and> link r = Some (pre @ next_marker @ post)))"
  proof (intro allI impI)
    fix p assume p: "1 \<le> p \<and> p \<le> n"
    have "p < n \<longleftrightarrow> continues w p"
      using p n(2,3) by (cases "p = n") auto
    also have "\<dots> \<longleftrightarrow> (\<exists>r data pre post. api w p = FetchResolves r \<and> ok r \<and> json r = Inr data
                   \<and> link r = Some (pre @ next_marker @ post))"
      by (simp only: continues_iff has_next_iff) blast
    finally show "p < n \<longleftrightarrow> (\<exists>r data pre post. api w p = FetchResolves r \<and> ok r \<and> json r = Inr data
                   \<and> link r = Some (pre @ next_marker @ post))" .
  qed
  have c: "names = concat (map (\<lambda>p. select_names (page_records w p)) [1..<Suc n])"
    using names by (simp only: names_between_def pn)
  from n(1) a b c
  show "\<exists>k\<ge>1.
         effects st' = effects st @
           map (\<lambda>p. Fetch (''https://api.github.com/user/repos?per_page=100&page='' @ show_nat p)
                         (''token '' @ token)) [1..<Suc k]
       \<and> (\<forall>p. 1 \<le> p \<and> p \<le> k \<longrightarrow>
             (p < k \<longleftrightarrow>
                (\<exists>r data pre post. api w p = FetchResolves r \<and> ok r \<and> json r = Inr data
                   \<and> link r = Some (pre @ next_marker @ post))))
       \<and> names = concat (map (\<lambda>p. select_names (page_records w p)) [1..<Suc k])"
    by blast
next
  assume first: "\<forall>r. api w 1 = FetchResolves r \<longrightarrow> \<not> has_next (link r)"
  then have nc: "\<not> continues w 1" by (auto simp: continues_iff)
  have "\<forall>q. (1::nat) \<le> q \<and> q < 1 \<longrightarrow> continues w q" by simp
  from fetchRepositoryNames_stops [OF assms _ this nc, of st]
  show "\<exists>names1 st1. fetchRepositoryNames w st = Some (names1, st1)
         \<and> effects st1 = effects st @
             [Fetch ''https://api.github.com/user/repos?per_page=100&page=1'' (''token '' @ token)]"
    by (simp add: fetch_effect_def list_url_def show_nat_1 del: show_nat.simps)
qed

theorem C6_pagination_witness:
  "env_token ex_world = Some ''t''
   \<and> fetchRepositoryNames ex_world (initial_state ex_world) = Some ([''app'', ''site''], ex_listed)
   \<and> (\<exists>k\<ge>1.
         effects ex_listed = effects (initial_state ex_world) @
           map (\<lambda>p. Fetch (''https://api.github.com/user/repos?per_page=100&page='' @ show_nat p)
                         (''token '' @ ''t'')) [1..<Suc k]
       \<and> (\<forall>p. 1 \<le> p \<and> p \<le> k \<longrightarrow>
             (p < k \<longleftrightarrow>
                (\<exists>r data pre post. api ex_world p = FetchResolves r \<and> ok r \<and> json r = Inr data
                   \<and> link r = Some (pre @ next_marker @ post))))
       \<and> [''app'', ''site''] = concat (map (\<lambda>p. select_names (page_records ex_world p)) [1..<Suc k]))
   \<and> api ex_world_single 1 = FetchResolves ex_page2 \<and> \<not> has_next (link ex_page2)
   \<and> (\<exists>names1 st1. fetchRepositoryNames ex_world_single (initial_state ex_world) = Some (names1, st1)
         \<and> effects st1 = effects (initial_state ex_world) @
             [Fetch ''https://api.github.com/user/repos?per_page=100&page=1'' (''token '' @ ''t'')])"
proof -
  have t: "env_token ex_world_single = Some ''t''"
    by (simp add: ex_world_single_def ex_world_def)
  have a: "api ex_world_single 1 = FetchResolves ex_page2"
    by (simp add: ex_world_single_def)
  have n: "\<not> has_next (link ex_page2)"
    by (simp add: ex_page2_def has_next_None)
  from a n have s: "\<forall>r. api ex_world_single 1 = FetchResolves r \<longrightarrow> \<not> has_next (link r)"
    by simp
  note A = C6_pagination [OF ex_token, of "initial_state ex_world" "[''app'', ''site'']" ex_listed,
      THEN conjunct1, THEN mp, OF ex_world_listing]
  note B = C6_pagination [OF t ex_token(2), of "initial_state ex_world", THEN conjunct2, THEN mp, OF s]
  show ?thesis
    by (rule conjI [OF ex_token(1) conjI [OF ex_world_listing conjI [OF A conjI [OF a conjI [OF n B]]]]])
qed



section \<open>processRepository and the capture loop\<close>

lemma processing_started_append:
  "processing_started (xs @ ys) = processing_started xs @ processing_started ys"
  by (induction xs rule: processing_started.induct) simp_all

lemma constants:
  "THUMBNAIL_WIDTH = 1200" "THUMBNAIL_HEIGHT = 800" "SCREENSHOT_DELAY_MS = 3000"
  by (simp_all add: THUMBNAIL_WIDTH_def THUMBNAIL_HEIGHT_def SCREENSHOT_DELAY_MS_def)

lemma processRepository_returns: "fst (processRepository w pe repoName st) = Inr ()"
  by (simp add: processRepository_def split: prod.splits sum.splits)

lemma processRepository_catch:
  "processRepository_try w pe repoName (log (LogProcessing repoName) st) = (Inl e, st1) \<Longrightarrow>
   processRepository w pe repoName st = (Inr (), log (ErrProcessing repoName (message e)) st1)"
  by (simp add: processRepository_def)

lemma processRepository_console:
  "\<exists>ms. console (snd (processRepository w pe repoName st)) = console st @ LogProcessing repoName # ms
     \<and> processing_started ms = []"
  by (simp add: processRepository_def processRepository_try_def close_page_def log_def emit_def
      Let_def split: option.splits sum.splits prod.splits)

lemma processRepository_started:
  "processing_started (console (snd (processRepository w pe repoName st))) =
     processing_started (console st) @ [repoName]"
proof -
  from processRepository_console [of w pe repoName st] obtain ms where
    "console (snd (processRepository w pe repoName st)) = console st @ LogProcessing repoName # ms"
    "processing_started ms = []"
    by blast
  then show ?thesis by (simp add: processing_started_append)
qed

lemma process_all_step:
  "process_all w i (repoName # rest) st =
     process_all w (Suc i) rest (snd (processRepository w (pages w i) repoName st))"
  using processRepository_returns [of w "pages w i" repoName st]
  by (cases "processRepository w (pages w i) repoName st") simp

lemma process_all_returns: "fst (process_all w i names st) = Inr ()"
  by (induction names arbitrary: i st) (simp_all add: process_all_step del: process_all.simps(2))

lemma process_all_started:
  "processing_started (console (snd (process_all w i names st))) =
     processing_started (console st) @ names"
  by (induction names arbitrary: i st)
    (simp_all add: process_all_step processRepository_started del: process_all.simps(2))

lemma processRepository_failed_load:
  assumes "newPage_r pe = None" "setViewport_r pe = None" "goto_r pe = Inr response"
    and "response = None \<or> (\<exists>r. response = Some r \<and> \<not> http_ok r)"
  shows "processRepository w pe repoName st =
    (Inr (),
     st\<lparr>console := console st @
          [LogProcessing repoName, LogNavigating (GITHUB_PAGES_BASE_URL @ repoName @ ''/''),
           WarnFailedLoad (GITHUB_PAGES_BASE_URL @ repoName @ ''/'') (map_option http_status response)]
          @ (case close_r pe of None \<Rightarrow> [] | Some e \<Rightarrow> [ErrProcessing repoName (message e)]),
        effects := effects st @
          [NewPage, SetViewport (pages_created st) THUMBNAIL_WIDTH THUMBNAIL_HEIGHT,
           Goto (pages_created st) (GITHUB_PAGES_BASE_URL @ repoName @ ''/'') ''networkidle2'' 60000,
           PageClose (pages_created st)],
        open_pages := removeAll (pages_created st) (open_pages st),
        pages_created := Suc (pages_created st)\<rparr>)"
  using assms
  by (auto simp: processRepository_def processRepository_try_def close_page_def log_def emit_def
      Let_def split: option.splits)

lemma processRepository_goto_throws:
  assumes "newPage_r pe = None" "setViewport_r pe = None" "goto_r pe = Inl e"
  shows "processRepository w pe repoName st =
    (Inr (),
     st\<lparr>console := console st @
          [LogProcessing repoName, LogNavigating (GITHUB_PAGES_BASE_URL @ repoName @ ''/''),
           ErrProcessing repoName (message e)],
        effects := effects st @
          [NewPage, SetViewport (pages_created st) THUMBNAIL_WIDTH THUMBNAIL_HEIGHT,
           Goto (pages_created st) (GITHUB_PAGES_BASE_URL @ repoName @ ''/'') ''networkidle2'' 60000],
        open_pages := pages_created st # open_pages st,
        pages_created := Suc (pages_created st)\<rparr>)"
  using assms
  by (simp add: processRepository_def processRepository_try_def log_def emit_def Let_def)

lemma processRepository_screenshot_throws:
  assumes "newPage_r pe = None" "setViewport_r pe = None" "goto_r pe = Inr (Some r)" "http_ok r"
    and "screenshot_r pe = Some e"
  shows "ErrProcessing repoName (message e) \<in> set (console (snd (processRepository w pe repoName st)))"
  using assms
  by (simp add: processRepository_def processRepository_try_def log_def emit_def Let_def)

lemma processRepository_navigates:
  assumes "newPage_r pe = None" "setViewport_r pe = None"
  shows "\<exists>rest. effects (snd (processRepository w pe repoName st)) = effects st @
     [NewPage, SetViewport (pages_created st) 1200 800,
      Goto (pages_created st) (''https://dapalms1.github.io/'' @ repoName @ ''/'')
        ''networkidle2'' 60000] @ rest"
  using assms
  by (simp add: processRepository_def processRepository_try_def close_page_def log_def emit_def
      Let_def base_url constants split: option.splits sum.splits prod.splits)

lemma processRepository_captures:
  assumes "newPage_r pe = None" "setViewport_r pe = None" "goto_r pe = Inr (Some r)" "http_ok r"
  shows "\<exists>rest. effects (snd (processRepository w pe repoName st)) = effects st @
     [NewPage, SetViewport (pages_created st) 1200 800,
      Goto (pages_created st) (''https://dapalms1.github.io/'' @ repoName @ ''/'')
        ''networkidle2'' 60000,
      Sleep 3000,
      Screenshot (pages_created st) (output_dir w @ ''/'' @ repoName @ ''.png'') False
        (0, 0, 1200, 800)] @ rest"
  using assms
  by (simp add: processRepository_def processRepository_try_def close_page_def log_def emit_def
      Let_def base_url constants path_join_def split: option.splits sum.splits prod.splits)

lemma processRepository_writes:
  assumes "newPage_r pe = None" "setViewport_r pe = None" "goto_r pe = Inr (Some r)" "http_ok r"
    and "screenshot_r pe = None" "files st = Some fs"
  shows "files (snd (processRepository w pe repoName st)) = Some (insert (repoName @ ''.png'') fs)"
  using assms
  by (simp add: processRepository_def processRepository_try_def close_page_def log_def emit_def
      Let_def split: option.splits sum.splits prod.splits)

section \<open>Claims on the capture step\<close>

text \<open>
  C1. The page context is closed on the success path and after a failed load, not when the
  \<^verbatim>\<open>try\<close> block throws: here \<^verbatim>\<open>page.goto\<close> times out, the \<^verbatim>\<open>catch\<close> logs, and
  \<^verbatim>\<open>processRepository\<close> returns with page 0 still open and no \<^verbatim>\<open>page.close\<close> among
  its calls.
\<close>

theorem C1_page_left_open:
  "processRepository ex_world ex_page_timeout ''app'' ex_listed =
    (Inr (),
     ex_listed\<lparr>console := console ex_listed @
          [LogProcessing ''app'', LogNavigating ''https://dapalms1.github.io/app/'',
           ErrProcessing ''app'' ''Navigation timeout of 60000 ms exceeded''],
        effects := effects ex_listed @
          [NewPage, SetViewport 0 1200 800,
           Goto 0 ''https://dapalms1.github.io/app/'' ''networkidle2'' 60000],
        open_pages := [0],
        pages_created := 1\<rparr>)"
proof -
  have "newPage_r ex_page_timeout = None" "setViewport_r ex_page_timeout = None"
    "goto_r ex_page_timeout = Inl (JsError None ''Navigation timeout of 60000 ms exceeded'')"
    by (simp_all add: ex_page_timeout_def)
  from processRepository_goto_throws [OF this, of ex_world "''app''" ex_listed]
  show ?thesis
    by (simp add: base_url constants ex_listed_def)
qed

text \<open>
  C8. When \<^verbatim>\<open>page.goto\<close> resolves to no response or to a response that is not
  \<^verbatim>\<open>ok()\<close> (a 404, say), \<^verbatim>\<open>processRepository\<close> returns normally; the warning is
  logged; the calls made are \<^verbatim>\<open>newPage\<close>, \<^verbatim>\<open>setViewport\<close>, \<^verbatim>\<open>goto\<close> and
  \<^verbatim>\<open>page.close\<close>, so no screenshot is taken; the files of the output directory are
  unchanged; the page is no longer open; and the loop goes on with the next name.
\<close>

theorem C8_failed_navigation:
  assumes "newPage_r (pages w i) = None" and "setViewport_r (pages w i) = None"
    and "goto_r (pages w i) = Inr response"
    and "response = None \<or> (\<exists>r. response = Some r \<and> \<not> http_ok r)"
  shows "\<exists>st'. processRepository w (pages w i) repoName st = (Inr (), st')
     \<and> WarnFailedLoad (''https://dapalms1.github.io/'' @ repoName @ ''/'')
         (map_option http_status response) \<in> set (console st')
     \<and> effects st' = effects st @
         [NewPage, SetViewport (pages_created st) 1200 800,
          Goto (pages_created st) (''https://dapalms1.github.io/'' @ repoName @ ''/'')
            ''networkidle2'' 60000,
          PageClose (pages_created st)]
     \<and> files st' = files st
     \<and> open_pages st' = removeAll (pages_created st) (open_pages st)
     \<and> process_all w i (repoName # rest) st = process_all w (Suc i) rest st'"
  by (simp add: process_all_step processRepository_failed_load [OF assms] base_url constants
      del: process_all.simps(2))

theorem C8_failed_navigation_witness:
  "newPage_r (pages ex_world_404 0) = None \<and> setViewport_r (pages ex_world_404 0) = None
   \<and> goto_r (pages ex_world_404 0) = Inr (Some \<lparr>http_ok = False, http_status = 404\<rparr>)
   \<and> \<not> http_ok \<lparr>http_ok = False, http_status = 404\<rparr>
   \<and> (\<exists>st'. processRepository ex_world_404 (pages ex_world_404 0) ''app'' ex_listed = (Inr (), st')
     \<and> WarnFailedLoad (''https://dapalms1.github.io/'' @ ''app'' @ ''/'')
         (map_option http_status (Some \<lparr>http_ok = False, http_status = 404\<rparr>)) \<in> set (console st')
     \<and> effects st' = effects ex_listed @
         [NewPage, SetViewport (pages_created ex_listed) 1200 800,
          Goto (pages_created ex_listed) (''https://dapalms1.github.io/'' @ ''app'' @ ''/'')
            ''networkidle2'' 60000,
          PageClose (pages_created ex_listed)]
     \<and> files st' = files ex_listed
     \<and> open_pages st' = removeAll (pages_created ex_listed) (open_pages ex_listed)
     \<and> process_all ex_world_404 0 (''app'' # [''site'']) ex_listed =
         process_all ex_world_404 (Suc 0) [''site''] st')"
proof -
  have a: "newPage_r (pages ex_world_404 0) = None"
    and b: "setViewport_r (pages ex_world_404 0) = None"
    and c: "goto_r (pages ex_world_404 0) = Inr (Some \<lparr>http_ok = False, http_status = 404\<rparr>)"
    by (simp_all add: ex_world_404_def ex_page_404_def)
  have d: "\<not> http_ok \<lparr>http_ok = False, http_status = 404\<rparr>" by simp
  then have e: "Some \<lparr>http_ok = False, http_status = 404\<rparr> = None
      \<or> (\<exists>r. Some \<lparr>http_ok = False, http_status = 404\<rparr> = Some r \<and> \<not> http_ok r)"
    by simp
  note A = C8_failed_navigation [OF a b c e, of "''app''" ex_listed "[''site'']"]
  show ?thesis
    by (rule conjI [OF a conjI [OF b conjI [OF c conjI [OF d A]]]])
qed

text \<open>
  C9. The base URL is \<^verbatim>\<open>https://dapalms1.github.io/\<close> (the owner lowercased) while the
  listing filter compares with \<^verbatim>\<open>DapaLMS1\<close> as it is, so that an owner spelled in lower
  case is filtered out. Once the page context is open with its viewport set,
  \<^verbatim>\<open>processRepository\<close> has set the viewport to 1200 by 800 and navigates to base, name
  and \<^verbatim>\<open>/\<close>; on a successful response it then waits 3000 ms and takes a screenshot
  clipped to (0, 0, 1200, 800) at \<^verbatim>\<open><output-dir>/<name>.png\<close>, a file that exists
  afterwards when the screenshot succeeds.
\<close>

theorem C9_capture:
  assumes "newPage_r pe = None" and "setViewport_r pe = None"
  shows "GITHUB_PAGES_BASE_URL = ''https://dapalms1.github.io/'' \<and> TARGET_ORG = ''DapaLMS1''
     \<and> select_names [\<lparr>owner_login = toLowerCase TARGET_ORG, name = n\<rparr>] = []
     \<and> (\<exists>rest. effects (snd (processRepository w pe repoName st)) = effects st @
          [NewPage, SetViewport (pages_created st) 1200 800,
           Goto (pages_created st) (''https://dapalms1.github.io/'' @ repoName @ ''/'')
             ''networkidle2'' 60000] @ rest)
     \<and> (\<forall>r. goto_r pe = Inr (Some r) \<and> http_ok r \<longrightarrow>
          (\<exists>rest. effects (snd (processRepository w pe repoName st)) = effects st @
             [NewPage, SetViewport (pages_created st) 1200 800,
              Goto (pages_created st) (''https://dapalms1.github.io/'' @ repoName @ ''/'')
                ''networkidle2'' 60000,
              Sleep 3000,
              Screenshot (pages_created st) (output_dir w @ ''/'' @ repoName @ ''.png'') False
                (0, 0, 1200, 800)] @ rest)
          \<and> (\<forall>fs. screenshot_r pe = None \<and> files st = Some fs \<longrightarrow>
                files (snd (processRepository w pe repoName st)) =
                  Some (insert (repoName @ ''.png'') fs)))"
proof -
  have l: "select_names [\<lparr>owner_login = toLowerCase TARGET_ORG, name = n\<rparr>] = []"
  proof -
    have "toLowerCase TARGET_ORG = ''dapalms1''" by code_simp
    then show ?thesis by (simp add: select_names_def TARGET_ORG_def)
  qed
  have c: "\<forall>r. goto_r pe = Inr (Some r) \<and> http_ok r \<longrightarrow>
          (\<exists>rest. effects (snd (processRepository w pe repoName st)) = effects st @
             [NewPage, SetViewport (pages_created st) 1200 800,
              Goto (pages_created st) (''https://dapalms1.github.io/'' @ repoName @ ''/'')
                ''networkidle2'' 60000,
              Sleep 3000,
              Screenshot (pages_created st) (output_dir w @ ''/'' @ repoName @ ''.png'') False
                (0, 0, 1200, 800)] @ rest)
          \<and> (\<forall>fs. screenshot_r pe = None \<and> files st = Some fs \<longrightarrow>
                files (snd (processRepository w pe repoName st)) =
                  Some (insert (repoName @ ''.png'') fs))"
    using processRepository_captures [OF assms, of _ w repoName st]
      processRepository_writes [OF assms, of _ st _ w repoName]
    by blast
  show ?thesis
    by (rule conjI [OF base_url conjI [OF TARGET_ORG_def conjI [OF l
        conjI [OF processRepository_navigates [OF assms] c]]]])
qed

theorem C9_capture_witness:
  "newPage_r ex_page_ok = None \<and> setViewport_r ex_page_ok = None
   \<and> goto_r ex_page_ok = Inr (Some \<lparr>http_ok = True, http_status = 200\<rparr>)
   \<and> http_ok \<lparr>http_ok = True, http_status = 200\<rparr>
   \<and> screenshot_r ex_page_ok = None \<and> files ex_listed = Some {''old.png''}
   \<and> (\<exists>rest. effects (snd (processRepository ex_world ex_page_ok ''app'' ex_listed)) =
          effects ex_listed @
             [NewPage, SetViewport (pages_created ex_listed) 1200 800,
              Goto (pages_created ex_listed) (''https://dapalms1.github.io/'' @ ''app'' @ ''/'')
                ''networkidle2'' 60000,
              Sleep 3000,
              Screenshot (pages_created ex_listed) (output_dir ex_world @ ''/'' @ ''app'' @ ''.png'')
                False (0, 0, 1200, 800)] @ rest)
   \<and> files (snd (processRepository ex_world ex_page_ok ''app'' ex_listed)) =
        Some (insert (''app'' @ ''.png'') {''old.png''})"
proof -
  have a: "newPage_r ex_page_ok = None" and b: "setViewport_r ex_page_ok = None"
    and c: "goto_r ex_page_ok = Inr (Some \<lparr>http_ok = True, http_status = 200\<rparr>)"
    and e: "screenshot_r ex_page_ok = None"
    by (simp_all add: ex_page_ok_def)
  have d: "http_ok \<lparr>http_ok = True, http_status = 200\<rparr>" by simp
  have f: "files ex_listed = Some {''old.png''}" by (simp add: ex_listed_def)
  note A = C9_capture [OF a b, of "''x''" ex_world "''app''" ex_listed,
      THEN conjunct2, THEN conjunct2, THEN conjunct2, THEN conjunct2, THEN spec, THEN mp,
      OF conjI [OF c d]]
  note B = A [THEN conjunct2, THEN spec, THEN mp, OF conjI [OF e f]]
  show ?thesis
    by (rule conjI [OF a conjI [OF b conjI [OF c conjI [OF d conjI [OF e conjI [OF f
        conjI [OF A [THEN conjunct1] B]]]]]]])
qed

section \<open>removeDirectory and main\<close>

lemma removeDirectory_returns: "fst (removeDirectory w dirPath st) = Inr ()"
  by (simp add: removeDirectory_def Let_def split: option.splits)

lemma removeDirectory_console:
  "\<exists>ms. console (snd (removeDirectory w dirPath st)) = console st @ ms \<and> length ms \<le> 1
     \<and> processing_started ms = []"
  by (simp add: removeDirectory_def Let_def log_def emit_def split: option.splits)



lemma case_returned:
  "fst x = Inr () \<Longrightarrow> (case x of (Inl e, s) \<Rightarrow> f e s | (Inr u, s) \<Rightarrow> g s) = g (snd x)"
  by (cases x) auto

lemma main_try_ok:
  assumes "mkdir_r w = None" "launch_r w = None"
  shows "main_try w names st = main_finally w True (snd (process_all w 0 names (setup_state w st)))"
proof -
  obtain st1 where r: "removeDirectory w (output_dir w) (log LogCleaning st) = (Inr (), st1)"
    using removeDirectory_returns [of w "output_dir w" "log LogCleaning st"]
    by (cases "removeDirectory w (output_dir w) (log LogCleaning st)") simp
  show ?thesis
    using assms
    by (simp add: main_try_def setup_state_def r Let_def case_returned [OF process_all_returns])
qed

lemma main_try_outcome: "fst (main_try w names st) = main_outcome w"
proof (cases "mkdir_r w = None \<and> launch_r w = None")
  case True
  then show ?thesis
    by (simp add: main_try_ok main_outcome_def main_finally_def Let_def split: option.splits)
next
  case False
  obtain st1 where r: "removeDirectory w (output_dir w) (log LogCleaning st) = (Inr (), st1)"
    using removeDirectory_returns [of w "output_dir w" "log LogCleaning st"]
    by (cases "removeDirectory w (output_dir w) (log LogCleaning st)") simp
  from False show ?thesis
    by (auto simp: main_try_def r Let_def main_catch_def main_outcome_def split: option.splits)
qed

lemma setup_state_started:
  "processing_started (console (setup_state w st)) = processing_started (console st)"
proof -
  from removeDirectory_console [of w "output_dir w" "log LogCleaning st"] obtain ms where
    "console (snd (removeDirectory w (output_dir w) (log LogCleaning st))) =
       console (log LogCleaning st) @ ms" "processing_started ms = []"
    by blast
  then show ?thesis
    by (simp add: setup_state_def Let_def log_def emit_def processing_started_append)
qed

lemma main_finally_started:
  "processing_started (console (snd (main_finally w b st))) = processing_started (console st)"
  by (simp add: main_finally_def Let_def log_def emit_def processing_started_append
      split: option.splits)

lemma main_try_started:
  assumes "mkdir_r w = None" "launch_r w = None"
  shows "processing_started (console (snd (main_try w names st))) =
     processing_started (console st) @ names"
  by (simp add: main_try_ok [OF assms] main_finally_started process_all_started
      setup_state_started)

text \<open>
  C3. \<^verbatim>\<open>processRepository\<close> never throws: an exception of its \<^verbatim>\<open>try\<close> block (a
  navigation error or timeout, a failed screenshot, or any other) is caught and logged
  with the repository name. The loop therefore never stops early: it starts the processing
  of every name of the list, in order, whatever the browser answers, and \<^verbatim>\<open>main\<close> ends
  the same way whatever happened to the repositories.
\<close>

theorem C3_error_isolation:
  "fst (processRepository w pe repoName st) = Inr ()
   \<and> (\<forall>e st1. processRepository_try w pe repoName (log (LogProcessing repoName) st) = (Inl e, st1)
        \<longrightarrow> processRepository w pe repoName st =
              (Inr (), log (ErrProcessing repoName (message e)) st1))
   \<and> (\<forall>e. newPage_r pe = None \<and> setViewport_r pe = None \<and> goto_r pe = Inl e
        \<longrightarrow> ErrProcessing repoName (message e)
              \<in> set (console (snd (processRepository w pe repoName st))))
   \<and> (\<forall>e r. newPage_r pe = None \<and> setViewport_r pe = None \<and> goto_r pe = Inr (Some r) \<and> http_ok r
          \<and> screenshot_r pe = Some e
        \<longrightarrow> ErrProcessing repoName (message e)
              \<in> set (console (snd (processRepository w pe repoName st))))
   \<and> fst (process_all w i names st) = Inr ()
   \<and> processing_started (console (snd (process_all w i names st))) =
       processing_started (console st) @ names
   \<and> (mkdir_r w = None \<and> launch_r w = None \<longrightarrow>
        processing_started (console (snd (main_try w names st))) =
          processing_started (console st) @ names
        \<and> fst (main_try w names st) =
            (case browser_close_r w of Some e \<Rightarrow> Rejected e | None \<Rightarrow> Returned))"
proof -
  have a: "\<forall>e st1. processRepository_try w pe repoName (log (LogProcessing repoName) st) = (Inl e, st1)
        \<longrightarrow> processRepository w pe repoName st =
              (Inr (), log (ErrProcessing repoName (message e)) st1)"
    using processRepository_catch by blast
  have b: "\<forall>e. newPage_r pe = None \<and> setViewport_r pe = None \<and> goto_r pe = Inl e
        \<longrightarrow> ErrProcessing repoName (message e)
              \<in> set (console (snd (processRepository w pe repoName st)))"
    by (simp add: processRepository_goto_throws)
  have c: "\<forall>e r. newPage_r pe = None \<and> setViewport_r pe = None \<and> goto_r pe = Inr (Some r) \<and> http_ok r
          \<and> screenshot_r pe = Some e
        \<longrightarrow> ErrProcessing repoName (message e)
              \<in> set (console (snd (processRepository w pe repoName st)))"
    using processRepository_screenshot_throws by blast
  have d: "mkdir_r w = None \<and> launch_r w = None \<longrightarrow>
        processing_started (console (snd (main_try w names st))) =
          processing_started (console st) @ names
        \<and> fst (main_try w names st) =
            (case browser_close_r w of Some e \<Rightarrow> Rejected e | None \<Rightarrow> Returned)"
    by (simp add: main_try_started main_try_outcome main_outcome_def)
  show ?thesis
    by (rule conjI [OF processRepository_returns conjI [OF a conjI [OF b conjI [OF c
        conjI [OF process_all_returns conjI [OF process_all_started d]]]]]])
qed

theorem C3_error_isolation_witness:
  "newPage_r ex_page_timeout = None \<and> setViewport_r ex_page_timeout = None
   \<and> goto_r ex_page_timeout = Inl ex_timeout
   \<and> ErrProcessing ''app'' (message ex_timeout)
       \<in> set (console (snd (processRepository ex_world_timeouts ex_page_timeout ''app'' ex_listed)))
   \<and> processRepository_try ex_world_timeouts ex_page_timeout ''app'' (log (LogProcessing ''app'') ex_listed) =
       (Inl ex_timeout,
        snd (processRepository_try ex_world_timeouts ex_page_timeout ''app''
               (log (LogProcessing ''app'') ex_listed)))
   \<and> processRepository ex_world_timeouts ex_page_timeout ''app'' ex_listed =
       (Inr (), log (ErrProcessing ''app'' (message ex_timeout))
          (snd (processRepository_try ex_world_timeouts ex_page_timeout ''app''
                  (log (LogProcessing ''app'') ex_listed))))
   \<and> newPage_r ex_page_shot_fails = None \<and> setViewport_r ex_page_shot_fails = None
   \<and> goto_r ex_page_shot_fails = Inr (Some \<lparr>http_ok = True, http_status = 200\<rparr>)
   \<and> screenshot_r ex_page_shot_fails = Some ex_shot_error
   \<and> ErrProcessing ''app'' (message ex_shot_error)
       \<in> set (console (snd (processRepository ex_world_timeouts ex_page_shot_fails ''app'' ex_listed)))
   \<and> mkdir_r ex_world_timeouts = None \<and> launch_r ex_world_timeouts = None
   \<and> processing_started (console (snd (main_try ex_world_timeouts [''app'', ''site''] ex_listed))) =
       processing_started (console ex_listed) @ [''app'', ''site'']
   \<and> fst (main_try ex_world_timeouts [''app'', ''site''] ex_listed) =
       (case browser_close_r ex_world_timeouts of Some e \<Rightarrow> Rejected e | None \<Rightarrow> Returned)"
proof -
  have a: "newPage_r ex_page_timeout = None" and b: "setViewport_r ex_page_timeout = None"
    and c: "goto_r ex_page_timeout = Inl ex_timeout"
    by (simp_all add: ex_page_timeout_def ex_timeout_def)
  have t: "processRepository_try ex_world_timeouts ex_page_timeout ''app''
             (log (LogProcessing ''app'') ex_listed) =
       (Inl ex_timeout,
        snd (processRepository_try ex_world_timeouts ex_page_timeout ''app''
               (log (LogProcessing ''app'') ex_listed)))"
    by (simp add: processRepository_try_def Let_def a b c)
  have a': "newPage_r ex_page_shot_fails = None" and b': "setViewport_r ex_page_shot_fails = None"
    and c': "goto_r ex_page_shot_fails = Inr (Some \<lparr>http_ok = True, http_status = 200\<rparr>)"
    and d': "screenshot_r ex_page_shot_fails = Some ex_shot_error"
    by (simp_all add: ex_page_shot_fails_def ex_page_ok_def)
  have e': "http_ok \<lparr>http_ok = True, http_status = 200\<rparr>" by simp
  have m: "mkdir_r ex_world_timeouts = None" and l: "launch_r ex_world_timeouts = None"
    by (simp_all add: ex_world_timeouts_def ex_world_def)
  note T = C3_error_isolation [where w = ex_world_timeouts and pe = ex_page_timeout
      and repoName = "''app''" and st = ex_listed and i = 0 and names = "[''app'', ''site'']"]
  note T' = C3_error_isolation [where w = ex_world_timeouts and pe = ex_page_shot_fails
      and repoName = "''app''" and st = ex_listed and i = 0 and names = "[''app'', ''site'']"]
  note c2 = T [THEN conjunct2, THEN conjunct1, THEN spec, THEN spec, THEN mp, OF t]
  note c3 = T [THEN conjunct2, THEN conjunct2, THEN conjunct1, THEN spec, THEN mp,
      OF conjI [OF a conjI [OF b c]]]
  note c4 = T' [THEN conjunct2, THEN conjunct2, THEN conjunct2, THEN conjunct1,
      THEN spec, THEN spec, THEN mp, OF conjI [OF a' conjI [OF b' conjI [OF c' conjI [OF e' d']]]]]
  note c7 = T [THEN conjunct2, THEN conjunct2, THEN conjunct2, THEN conjunct2, THEN conjunct2,
      THEN conjunct2, THEN mp, OF conjI [OF m l]]
  show ?thesis
    by (rule conjI [OF a conjI [OF b conjI [OF c conjI [OF c3 conjI [OF t conjI [OF c2
        conjI [OF a' conjI [OF b' conjI [OF c' conjI [OF d' conjI [OF c4
        conjI [OF m conjI [OF l c7]]]]]]]]]]]]])
qed












lemma main_unfold:
  assumes "fetchRepositoryNames w (initial_state w) = Some (names, st1)"
  shows "main w = Some (if names = [] then (Returned, log LogNoRepos st1) else main_try w names st1)"
  using assms by (simp add: main_def main_from_def)

lemma single_listing:
  assumes "env_token w = Some ''t''" and "api w = (\<lambda>p. FetchResolves ex_page2)"
  shows "fetchRepositoryNames w st =
     Some ([''site''],
           st\<lparr>effects := effects st @
                  [Fetch ''https://api.github.com/user/repos?per_page=100&page=1'' ''token t''],
               console := console st @ [LogFetching, LogFound 1 ''DapaLMS1'']\<rparr>)"
proof -
  have r: "received w 1 = Some ([\<lparr>owner_login = ''DapaLMS1'', name = ''site''\<rparr>], False)"
    by (simp add: received_def assms(2) ex_page2_def has_next_None)
  then have nc: "\<not> continues w 1" by (simp add: continues_def)
  have c: "\<forall>q. (1::nat) \<le> q \<and> q < 1 \<longrightarrow> continues w q" by simp
  have e: "stop_console w 1 = []"
    by (simp add: stop_console_def page_error_def assms(2) ex_page2_def)
  have n: "names_between w 1 (Suc 1) = [''site'']"
    using r by (simp add: names_between_def page_names_def select_names_def TARGET_ORG_def)
  have f: "map (fetch_effect ''t'') [1..<Suc 1] =
     [Fetch ''https://api.github.com/user/repos?per_page=100&page=1'' ''token t'']"
    by (simp add: fetch_effect_def list_url_def show_nat_1 del: show_nat.simps)
  have "fetchRepositoryNames w st =
     Some (names_between w 1 (Suc 1),
           st\<lparr>effects := effects st @ map (fetch_effect ''t'') [1..<Suc 1],
              console := console st @ [LogFetching] @ stop_console w 1 @
                [LogFound (length (names_between w 1 (Suc 1))) TARGET_ORG]\<rparr>)"
    by (rule fetchRepositoryNames_stops [OF assms(1) _ _ c nc]) simp_all
  then show ?thesis
    by (simp only: n e f) (simp add: TARGET_ORG_def)
qed

lemma ex_processRepository_ok:
  assumes "output_dir w = ''/repo/previews''" and "files st \<noteq> None"
  shows "processRepository w ex_page_ok ''site'' st =
    (Inr (),
     st\<lparr>console := console st @
          [LogProcessing ''site'', LogNavigating ''https://dapalms1.github.io/site/'',
           LogWaiting 3000, LogTaking ''/repo/previews/site.png'', LogSuccess ''site''],
        effects := effects st @
          [NewPage, SetViewport (pages_created st) 1200 800,
           Goto (pages_created st) ''https://dapalms1.github.io/site/'' ''networkidle2'' 60000,
           Sleep 3000,
           Screenshot (pages_created st) ''/repo/previews/site.png'' False (0, 0, 1200, 800),
           PageClose (pages_created st)],
        files := map_option (insert ''site.png'') (files st),
        open_pages := removeAll (pages_created st) (open_pages st),
        pages_created := Suc (pages_created st)\<rparr>)"
  using assms
  by (auto simp: processRepository_def processRepository_try_def close_page_def log_def emit_def
      Let_def ex_page_ok_def base_url constants path_join_def)

lemma ex_single_fields:
  "env_token ex_world_single = Some ''t''" "api ex_world_single = (\<lambda>p. FetchResolves ex_page2)"
  "output_dir ex_world_single = ''/repo/previews''" "mkdir_r ex_world_single = None"
  "launch_r ex_world_single = None" "pages ex_world_single = (\<lambda>i. ex_page_ok)"
  "prior_files ex_world_single = Some {''old.png''}" "rm_r ex_world_single = None"
  "browser_close_r ex_world_single = None"
  by (simp_all add: ex_world_single_def ex_world_def)

lemma ex_single_setup:
  assumes "output_dir w = ''/repo/previews''" "pages w 0 = ex_page_ok"
    and "mkdir_r w = None" "launch_r w = None"
  shows "main_try w [''site''] st =
     main_finally w True
       (snd (processRepository w ex_page_ok ''site'' (setup_state w st)))"
  using assms(2) by (simp add: main_try_ok [OF assms(3,4)] process_all_step del: process_all.simps(2))

section \<open>Claims on the output directory and the exit code\<close>




text \<open>
  C10, as stated, fails: the listing, the setup and the capture all succeed and
  \<^verbatim>\<open>browser.close()\<close> throws in the \<^verbatim>\<open>finally\<close> block. The \<^verbatim>\<open>catch\<close> of \<^verbatim>\<open>main\<close>
  is not entered (no critical error is logged, \<^verbatim>\<open>process.exit\<close> is not called); the
  promise of \<^verbatim>\<open>main()\<close> rejects and the process ends with code 1.
\<close>

theorem C10_counterexample:
  "main ex_world_close_fails =
     Some (Rejected (JsError None ''Target closed''),
       \<lparr>console = [LogFetching, LogFound 1 ''DapaLMS1'', LogCleaning,
           LogRemoved ''/repo/previews'', LogLaunching,
           LogProcessing ''site'', LogNavigating ''https://dapalms1.github.io/site/'',
           LogWaiting 3000, LogTaking ''/repo/previews/site.png'', LogSuccess ''site''],
        effects = [Fetch ''https://api.github.com/user/repos?per_page=100&page=1'' ''token t'',
           FsRm ''/repo/previews'', FsMkdir ''/repo/previews'', Launch launch_args,
           NewPage, SetViewport 0 1200 800,
           Goto 0 ''https://dapalms1.github.io/site/'' ''networkidle2'' 60000, Sleep 3000,
           Screenshot 0 ''/repo/previews/site.png'' False (0, 0, 1200, 800), PageClose 0,
           BrowserClose],
        files = Some {''site.png''}, open_pages = [], pages_created = 1\<rparr>)
   \<and> exit_code (Rejected (JsError None ''Target closed'')) = 1"
proof -
  let ?w = ex_world_close_fails
  have f: "env_token ?w = Some ''t''" "api ?w = (\<lambda>p. FetchResolves ex_page2)"
    "output_dir ?w = ''/repo/previews''" "mkdir_r ?w = None" "launch_r ?w = None"
    "pages ?w 0 = ex_page_ok" "prior_files ?w = Some {''old.png''}"
    "rm_r ?w = None"
    "browser_close_r ?w = Some (JsError None ''Target closed'')"
    by (simp_all add: ex_world_close_fails_def ex_single_fields)
  have i: "initial_state ?w = \<lparr>console = [], effects = [], files = Some {''old.png''},
      open_pages = [], pages_created = 0\<rparr>"
    by (simp add: initial_state_def f)
  have s: "setup_state ?w
       \<lparr>console = [LogFetching, LogFound (Suc 0) ''DapaLMS1''],
        effects = [Fetch ''https://api.github.com/user/repos?per_page=100&page=1'' ''token t''],
        files = Some {''old.png''}, open_pages = [], pages_created = 0\<rparr> =
       \<lparr>console = [LogFetching, LogFound (Suc 0) ''DapaLMS1'', LogCleaning,
           LogRemoved ''/repo/previews'', LogLaunching],
        effects = [Fetch ''https://api.github.com/user/repos?per_page=100&page=1'' ''token t'',
           FsRm ''/repo/previews'', FsMkdir ''/repo/previews'', Launch launch_args],
        files = Some {}, open_pages = [], pages_created = 0\<rparr>"
    by (simp add: setup_state_def removeDirectory_def Let_def log_def emit_def f)
  have a: "main ?w = Some (Rejected (JsError None ''Target closed''),
       \<lparr>console = [LogFetching, LogFound 1 ''DapaLMS1'', LogCleaning,
           LogRemoved ''/repo/previews'', LogLaunching,
           LogProcessing ''site'', LogNavigating ''https://dapalms1.github.io/site/'',
           LogWaiting 3000, LogTaking ''/repo/previews/site.png'', LogSuccess ''site''],
        effects = [Fetch ''https://api.github.com/user/repos?per_page=100&page=1'' ''token t'',
           FsRm ''/repo/previews'', FsMkdir ''/repo/previews'', Launch launch_args,
           NewPage, SetViewport 0 1200 800,
           Goto 0 ''https://dapalms1.github.io/site/'' ''networkidle2'' 60000, Sleep 3000,
           Screenshot 0 ''/repo/previews/site.png'' False (0, 0, 1200, 800), PageClose 0,
           BrowserClose],
        files = Some {''site.png''}, open_pages = [], pages_created = 1\<rparr>)"
    by (simp add: main_unfold [OF single_listing [OF f(1,2)]] i
        ex_single_setup [OF f(3) f(6) f(4) f(5)] s ex_processRepository_ok [OF f(3)]
        main_finally_def Let_def log_def emit_def f(9))
  have b: "exit_code (Rejected (JsError None ''Target closed'')) = 1"
    by (simp add: exit_code_def)
  from a b show ?thesis by (rule conjI)
qed

text \<open>
  C10, amended. \<^verbatim>\<open>removeDirectory\<close> never rejects and logs at most one message, so a
  failed removal alone changes neither the course of the run nor its exit code. For a run
  whose listing returns, the exit code is non-zero exactly when the work list is not empty
  and \<^verbatim>\<open>fs.mkdir\<close>, \<^verbatim>\<open>puppeteer.launch\<close> or \<^verbatim>\<open>browser.close\<close> throws: the first two
  reach the top-level \<^verbatim>\<open>catch\<close> (\<^verbatim>\<open>process.exit(1)\<close>), the third rejects the promise of
  \<^verbatim>\<open>main()\<close>. In every other case, all-skipped runs included, the code is 0.
\<close>

theorem C10_exit_codes:
  assumes "fetchRepositoryNames w (initial_state w) = Some (names, st1)"
  shows "fst (removeDirectory w dirPath st) = Inr ()
     \<and> (\<exists>ms. console (snd (removeDirectory w dirPath st)) = console st @ ms \<and> length ms \<le> 1)
     \<and> (\<exists>out st'. main w = Some (out, st')
          \<and> (exit_code out \<noteq> 0 \<longleftrightarrow>
               names \<noteq> [] \<and> (mkdir_r w \<noteq> None \<or> launch_r w \<noteq> None \<or> browser_close_r w \<noteq> None))
          \<and> (out = Exited 1 \<longleftrightarrow> names \<noteq> [] \<and> (mkdir_r w \<noteq> None \<or> launch_r w \<noteq> None))
          \<and> ((\<exists>e. out = Rejected e) \<longleftrightarrow>
               names \<noteq> [] \<and> mkdir_r w = None \<and> launch_r w = None \<and> browser_close_r w \<noteq> None)
          \<and> (out = Returned \<longleftrightarrow> exit_code out = 0))"
proof -
  have b: "\<exists>ms. console (snd (removeDirectory w dirPath st)) = console st @ ms \<and> length ms \<le> 1"
    using removeDirectory_console [of w dirPath st] by blast
  define out where "out = (if names = [] then Returned else main_outcome w)"
  define st' where "st' = (if names = [] then log LogNoRepos st1 else snd (main_try w names st1))"
  have m: "main w = Some (out, st')"
    using main_try_outcome [of w names st1]
    by (simp add: main_unfold [OF assms] out_def st'_def prod_eq_iff)
  note o = out_def
  have c: "(exit_code out \<noteq> 0 \<longleftrightarrow>
               names \<noteq> [] \<and> (mkdir_r w \<noteq> None \<or> launch_r w \<noteq> None \<or> browser_close_r w \<noteq> None))
          \<and> (out = Exited 1 \<longleftrightarrow> names \<noteq> [] \<and> (mkdir_r w \<noteq> None \<or> launch_r w \<noteq> None))
          \<and> ((\<exists>e. out = Rejected e) \<longleftrightarrow>
               names \<noteq> [] \<and> mkdir_r w = None \<and> launch_r w = None \<and> browser_close_r w \<noteq> None)
          \<and> (out = Returned \<longleftrightarrow> exit_code out = 0)"
    unfolding o by (auto simp: main_outcome_def exit_code_def split: option.splits)
  have d: "\<exists>out st'. main w = Some (out, st')
          \<and> (exit_code out \<noteq> 0 \<longleftrightarrow>
               names \<noteq> [] \<and> (mkdir_r w \<noteq> None \<or> launch_r w \<noteq> None \<or> browser_close_r w \<noteq> None))
          \<and> (out = Exited 1 \<longleftrightarrow> names \<noteq> [] \<and> (mkdir_r w \<noteq> None \<or> launch_r w \<noteq> None))
          \<and> ((\<exists>e. out = Rejected e) \<longleftrightarrow>
               names \<noteq> [] \<and> mkdir_r w = None \<and> launch_r w = None \<and> browser_close_r w \<noteq> None)
          \<and> (out = Returned \<longleftrightarrow> exit_code out = 0)"
    by (rule exI [of _ out], rule exI [of _ st'], rule conjI [OF m c])
  show ?thesis
    by (rule conjI [OF removeDirectory_returns conjI [OF b d]])
qed

theorem C10_exit_codes_witness:
  "fetchRepositoryNames ex_world_mkdir_fails (initial_state ex_world_mkdir_fails) =
     Some ([''site''],
           (initial_state ex_world_mkdir_fails)\<lparr>effects := effects (initial_state ex_world_mkdir_fails) @
                  [Fetch ''https://api.github.com/user/repos?per_page=100&page=1'' ''token t''],
               console := console (initial_state ex_world_mkdir_fails) @
                  [LogFetching, LogFound 1 ''DapaLMS1'']\<rparr>)
   \<and> fst (removeDirectory ex_world_mkdir_fails ''/repo/previews'' ex_listed) = Inr ()
   \<and> (\<exists>ms. console (snd (removeDirectory ex_world_mkdir_fails ''/repo/previews'' ex_listed)) =
          console ex_listed @ ms \<and> length ms \<le> 1)
   \<and> (\<exists>out st'. main ex_world_mkdir_fails = Some (out, st')
          \<and> (exit_code out \<noteq> 0 \<longleftrightarrow>
               [''site''] \<noteq> [] \<and> (mkdir_r ex_world_mkdir_fails \<noteq> None
                  \<or> launch_r ex_world_mkdir_fails \<noteq> None
                  \<or> browser_close_r ex_world_mkdir_fails \<noteq> None))
          \<and> (out = Exited 1 \<longleftrightarrow>
               [''site''] \<noteq> [] \<and> (mkdir_r ex_world_mkdir_fails \<noteq> None
                  \<or> launch_r ex_world_mkdir_fails \<noteq> None))
          \<and> ((\<exists>e. out = Rejected e) \<longleftrightarrow>
               [''site''] \<noteq> [] \<and> mkdir_r ex_world_mkdir_fails = None
                 \<and> launch_r ex_world_mkdir_fails = None
                 \<and> browser_close_r ex_world_mkdir_fails \<noteq> None)
          \<and> (out = Returned \<longleftrightarrow> exit_code out = 0))"
proof -
  have f: "env_token ex_world_mkdir_fails = Some ''t''"
    "api ex_world_mkdir_fails = (\<lambda>p. FetchResolves ex_page2)"
    by (simp_all add: ex_world_mkdir_fails_def ex_single_fields)
  note L = single_listing [OF f, of "initial_state ex_world_mkdir_fails"]
  note A = C10_exit_codes [OF L, of "''/repo/previews''" ex_listed]
  show ?thesis
    by (rule conjI [OF L A])
qed

end
